theory Spec2Isabelle
  imports Main
begin

section \<open>JavaScript strings\<close>

text \<open>
  The script \<^verbatim>\<open>scripts/pull-names.ts\<close> works on JavaScript strings, which are sequences of
  UTF-16 code units. A string is modelled as the list of its code units, each a natural
  number (below 65536 in a real string; no definition below depends on that bound). All
  characters the script tests for (quote, comma, newline, digits, white space) are single
  code units, so iterating a string by code point (\<^verbatim>\<open>for (const char of line)\<close>) and by
  code unit give the same result. A literal of the source is written \<open>js ''...''\<close>.
\<close>

type_synonym jschar = nat
type_synonym jsstring = "nat list"

definition js :: "string \<Rightarrow> jsstring" where
  "js s = map of_char s"

text \<open>
  White space as ECMAScript defines it for \<^verbatim>\<open>\s\<close> in a regular expression and for
  \<^verbatim>\<open>String.prototype.trim\<close>: the WhiteSpace and LineTerminator code points
  (TAB, LF, VT, FF, CR, SP, NBSP, U+1680, U+2000..U+200A, U+2028, U+2029, U+202F, U+205F,
  U+3000, U+FEFF).
\<close>

definition is_space :: "jschar \<Rightarrow> bool" where
  "is_space c \<longleftrightarrow>
     (9 \<le> c \<and> c \<le> 13) \<or> c = 32 \<or> c = 160 \<or> c = 5760 \<or> (8192 \<le> c \<and> c \<le> 8202) \<or>
     c = 8232 \<or> c = 8233 \<or> c = 8239 \<or> c = 8287 \<or> c = 12288 \<or> c = 65279"

text \<open>\<^verbatim>\<open>\d\<close> without the unicode-sets flag: the ASCII digits only.\<close>

definition is_digit :: "jschar \<Rightarrow> bool" where
  "is_digit c \<longleftrightarrow> 48 \<le> c \<and> c \<le> 57"

text \<open>\<^verbatim>\<open>s.trim()\<close>\<close>

definition trim :: "jsstring \<Rightarrow> jsstring" where
  "trim s = rev (dropWhile is_space (rev (dropWhile is_space s)))"

text \<open>\<^verbatim>\<open>s.split(c)\<close> for a separator of one code unit: one piece more than there are
  separators, so the result is never empty (\<^verbatim>\<open>''.split(',')\<close> is the array of the empty string).\<close>

fun split_on :: "jschar \<Rightarrow> jsstring \<Rightarrow> jsstring list" where
  "split_on c [] = [] # []"
| "split_on c (x # xs) =
     (if x = c then [] # split_on c xs
      else (case split_on c xs of p # ps \<Rightarrow> (x # p) # ps | [] \<Rightarrow> [x] # []))"

text \<open>\<^verbatim>\<open>parts.join(sep)\<close>\<close>

fun join :: "jsstring \<Rightarrow> jsstring list \<Rightarrow> jsstring" where
  "join sep [] = []"
| "join sep [p] = p"
| "join sep (p # q # ps) = p @ sep @ join sep (q # ps)"

text \<open>
  \<^verbatim>\<open>String(n)\<close> and \<^verbatim>\<open>${n}\<close> for an integer \<open>n\<close>: the decimal digits, with a minus sign
  for a negative number. (The script only prints array lengths and small multiples of them,
  far below \<open>10^21\<close>, where JavaScript would switch to exponent notation.)
\<close>

fun dec_digits :: "nat \<Rightarrow> jsstring" where
  "dec_digits n = (if n < 10 then [48 + n] else dec_digits (n div 10) @ [48 + n mod 10])"

declare dec_digits.simps [simp del]

definition num_to_string :: "int \<Rightarrow> jsstring" where
  "num_to_string n = (if n < 0 then 45 # dec_digits (nat (- n)) else dec_digits (nat n))"

section \<open>The colour converter \<^verbatim>\<open>rgbToHex\<close>\<close>

text \<open>
  The regular expression
  \<^verbatim>\<open>/rgb\s*\(\s*(-?\d+)\s*,\s*(-?\d+)\s*,\s*(-?\d+)\s*\)/\<close>
  is not anchored: \<^verbatim>\<open>rgb.match\<close> tries every start position from the left and returns
  the first match. At one start position the match is deterministic: every greedy
  \<^verbatim>\<open>\s*\<close>, \<^verbatim>\<open>-?\<close> and \<^verbatim>\<open>\d+\<close> is followed by an item no character of its own class can
  match, so giving characters back never helps and the backtracking matcher agrees with
  the greedy scan below.
\<close>

text \<open>A literal of the pattern: the rest of the input after it, if it is there.\<close>

fun match_lit :: "jsstring \<Rightarrow> jsstring \<Rightarrow> jsstring option" where
  "match_lit [] s = Some s"
| "match_lit (p # ps) [] = None"
| "match_lit (p # ps) (x # xs) = (if p = x then match_lit ps xs else None)"

text \<open>\<^verbatim>\<open>\s*\<close>\<close>

definition skip_ws :: "jsstring \<Rightarrow> jsstring" where
  "skip_ws s = dropWhile is_space s"

text \<open>The group \<^verbatim>\<open>(-?\d+)\<close>: the captured text and the rest of the input.\<close>

definition match_int :: "jsstring \<Rightarrow> (jsstring \<times> jsstring) option" where
  "match_int s =
     (let (sign, t) = (case s of c # t \<Rightarrow> if c = 45 then ([45], t) else ([], s) | [] \<Rightarrow> ([], s));
          ds = takeWhile is_digit t
      in if ds = [] then None else Some (sign @ ds, dropWhile is_digit t))"

text \<open>The whole pattern at the start of the input: the three captured groups.\<close>

definition rgb_match_here :: "jsstring \<Rightarrow> (jsstring \<times> jsstring \<times> jsstring) option" where
  "rgb_match_here s =
     Option.bind (match_lit (js ''rgb'') s) (\<lambda>s1.
     Option.bind (match_lit (js ''('') (skip_ws s1)) (\<lambda>s2.
     Option.bind (match_int (skip_ws s2)) (\<lambda>(m1, s3).
     Option.bind (match_lit (js '','') (skip_ws s3)) (\<lambda>s4.
     Option.bind (match_int (skip_ws s4)) (\<lambda>(m2, s5).
     Option.bind (match_lit (js '','') (skip_ws s5)) (\<lambda>s6.
     Option.bind (match_int (skip_ws s6)) (\<lambda>(m3, s7).
     Option.bind (match_lit (js '')'') (skip_ws s7)) (\<lambda>s8.
     Some (m1, m2, m3)))))))))"

text \<open>\<^verbatim>\<open>rgb.match(...)\<close>: the leftmost start position at which the pattern matches.\<close>

fun rgb_match :: "jsstring \<Rightarrow> (jsstring \<times> jsstring \<times> jsstring) option" where
  "rgb_match s =
     (case rgb_match_here s of
        Some m \<Rightarrow> Some m
      | None \<Rightarrow> (case s of [] \<Rightarrow> None | c # t \<Rightarrow> rgb_match t))"

declare rgb_match.simps [simp del]

text \<open>
  \<^verbatim>\<open>parseInt(s, 10)\<close>: leading white space is skipped, then an optional sign and the
  longest run of decimal digits are read; without a digit the result is NaN (\<open>None\<close>).
  The result is a JavaScript number, a double; it is modelled by the exact integer. The
  only use of the value is \<^verbatim>\<open>clamp\<close>, and rounding to a double is monotone and keeps
  \<open>0\<close> and \<open>255\<close>, so the clamped double (also of \<open>Infinity\<close> and of \<open>-0\<close>) is the clamped
  integer.
\<close>

definition digits_val :: "jsstring \<Rightarrow> nat" where
  "digits_val ds = foldl (\<lambda>a c. 10 * a + (c - 48)) 0 ds"

definition parseInt10 :: "jsstring \<Rightarrow> int option" where
  "parseInt10 s =
     (let t = dropWhile is_space s;
          (neg, u) = (case t of c # u \<Rightarrow>
                        if c = 45 then (True, u) else if c = 43 then (False, u) else (False, t)
                      | [] \<Rightarrow> (False, t));
          ds = takeWhile is_digit u
      in if ds = [] then None
         else Some (if neg then - int (digits_val ds) else int (digits_val ds)))"

text \<open>\<^verbatim>\<open>const clamp = (n: number) => Math.max(0, Math.min(255, n))\<close>\<close>

definition clamp :: "int \<Rightarrow> int" where
  "clamp n = max 0 (min 255 n)"

text \<open>\<^verbatim>\<open>c.toString(16)\<close> for a non-negative integer: lowercase hexadecimal digits.\<close>

definition hex_digit :: "nat \<Rightarrow> jschar" where
  "hex_digit d = (if d < 10 then 48 + d else 87 + d)"

fun toString16 :: "nat \<Rightarrow> jsstring" where
  "toString16 n = (if n < 16 then [hex_digit n] else toString16 (n div 16) @ [hex_digit (n mod 16)])"

declare toString16.simps [simp del]

text \<open>\<^verbatim>\<open>s.padStart(n, '0')\<close>\<close>

definition padStart0 :: "nat \<Rightarrow> jsstring \<Rightarrow> jsstring" where
  "padStart0 n s = replicate (n - length s) 48 @ s"

text \<open>
  One channel: \<^verbatim>\<open>clamp(parseInt(m, 10)).toString(16).padStart(2, '0')\<close>. A NaN would
  pass through \<^verbatim>\<open>Math.min\<close> and \<^verbatim>\<open>Math.max\<close> and print as \<^verbatim>\<open>NaN\<close>.
\<close>

definition channel_hex :: "jsstring \<Rightarrow> jsstring" where
  "channel_hex m =
     (case parseInt10 m of
        None \<Rightarrow> padStart0 2 (js ''NaN'')
      | Some n \<Rightarrow> padStart0 2 (toString16 (nat (clamp n))))"

text \<open>
  \<^verbatim>\<open>rgbToHex\<close>. The warning written with \<^verbatim>\<open>console.warn\<close> when the pattern does not match
  changes no value the script computes; \<open>rgbToHex_warns\<close> records when it is written.
\<close>

definition rgbToHex :: "jsstring \<Rightarrow> jsstring" where
  "rgbToHex rgb =
     (case rgb_match rgb of
        None \<Rightarrow> js ''#000000''
      | Some (m1, m2, m3) \<Rightarrow> js ''#'' @ join [] (map channel_hex [m1, m2, m3]))"

definition rgbToHex_warns :: "jsstring \<Rightarrow> bool" where
  "rgbToHex_warns rgb \<longleftrightarrow> rgb_match rgb = None"

section \<open>The CSV parser \<^verbatim>\<open>parseCSV\<close>\<close>

text \<open>
  The loop over the characters of one data line (lines 81 to 95 of the source): the state
  is \<^verbatim>\<open>values\<close>, \<^verbatim>\<open>current\<close> and \<^verbatim>\<open>inQuotes\<close>; after the loop the last
  \<^verbatim>\<open>current\<close> is pushed. The code unit 34 is the double quote, 44 the comma.
\<close>

fun scan_row :: "jsstring list \<Rightarrow> jsstring \<Rightarrow> bool \<Rightarrow> jsstring \<Rightarrow> jsstring list" where
  "scan_row values current inQuotes [] = values @ [trim current]"
| "scan_row values current inQuotes (char # rest) =
     (if char = 34 then scan_row values current (\<not> inQuotes) rest
      else if char = 44 \<and> \<not> inQuotes then scan_row (values @ [trim current]) [] inQuotes rest
      else scan_row values (current @ [char]) inQuotes rest)"

definition parse_row :: "jsstring \<Rightarrow> jsstring list" where
  "parse_row line = scan_row [] [] False line"

text \<open>
  The object built for one row, a \<^verbatim>\<open>Record<string, string>\<close>: a finite map from property
  names to values. \<^verbatim>\<open>values[i] || ''\<close> is the empty string when the row has no value at
  \<open>i\<close>. An assignment to the property \<^verbatim>\<open>__proto__\<close> of an object literal reaches the
  accessor of \<^verbatim>\<open>Object.prototype\<close>, which ignores a string, so no property is stored.
\<close>

type_synonym jsobject = "jsstring \<rightharpoonup> jsstring"

definition value_or_empty :: "jsstring list \<Rightarrow> nat \<Rightarrow> jsstring" where
  "value_or_empty values i = (if i < length values then values ! i else [])"

definition set_property :: "jsobject \<Rightarrow> jsstring \<Rightarrow> jsstring \<Rightarrow> jsobject" where
  "set_property obj header v = (if header = js ''__proto__'' then obj else obj(header \<mapsto> v))"

fun fill_object :: "jsstring list \<Rightarrow> jsstring list \<Rightarrow> nat \<Rightarrow> jsobject \<Rightarrow> jsobject" where
  "fill_object [] values i obj = obj"
| "fill_object (header # headers) values i obj =
     fill_object headers values (Suc i) (set_property obj header (value_or_empty values i))"

definition row_object :: "jsstring list \<Rightarrow> jsstring list \<Rightarrow> jsobject" where
  "row_object headers values = fill_object headers values 0 Map.empty"

text \<open>
  \<^verbatim>\<open>parseCSV\<close>: \<^verbatim>\<open>lines = csv.trim().split('\n')\<close> is never empty, so \<^verbatim>\<open>lines[0]\<close>
  exists; the header names are \<^verbatim>\<open>lines[0].split(',').map(h => h.trim())\<close>; every further
  line gives one object.
\<close>

definition csv_lines :: "jsstring \<Rightarrow> jsstring list" where
  "csv_lines csv = split_on 10 (trim csv)"

definition csv_headers :: "jsstring \<Rightarrow> jsstring list" where
  "csv_headers csv = map trim (split_on 44 (hd (csv_lines csv)))"

definition parseCSV :: "jsstring \<Rightarrow> jsobject list" where
  "parseCSV csv =
     map (\<lambda>line. row_object (csv_headers csv) (parse_row line)) (tl (csv_lines csv))"

section \<open>Notions of the specification: rows and header\<close>

text \<open>
  A field as it is written in a row: plain text without comma and quote, or text without
  quote (commas allowed) between two double quotes.
\<close>

datatype csv_field = Plain jsstring | Quoted jsstring

fun field_ok :: "csv_field \<Rightarrow> bool" where
  "field_ok (Plain t) \<longleftrightarrow> 44 \<notin> set t \<and> 34 \<notin> set t"
| "field_ok (Quoted t) \<longleftrightarrow> 34 \<notin> set t"

fun field_text :: "csv_field \<Rightarrow> jsstring" where
  "field_text (Plain t) = t"
| "field_text (Quoted t) = 34 # t @ [34]"

fun field_content :: "csv_field \<Rightarrow> jsstring" where
  "field_content (Plain t) = t"
| "field_content (Quoted t) = t"

text \<open>
  Splitting on unquoted commas only, as the specification words the treatment of the
  header row: a double quote toggles the quoted state and stays in the text, a comma splits
  outside quotes only.
\<close>

fun split_unquoted :: "bool \<Rightarrow> jsstring \<Rightarrow> jsstring list" where
  "split_unquoted q [] = [] # []"
| "split_unquoted q (x # xs) =
     (if x = 44 \<and> \<not> q then [] # split_unquoted q xs
      else (case split_unquoted (if x = 34 then \<not> q else q) xs of
              p # ps \<Rightarrow> (x # p) # ps
            | [] \<Rightarrow> [x] # []))"

definition spec_headers :: "jsstring \<Rightarrow> jsstring list" where
  "spec_headers csv = map trim (split_unquoted False (hd (csv_lines csv)))"

section \<open>Records and grouping\<close>

text \<open>
  \<^verbatim>\<open>interface ColorInfo\<close>: nine string fields. The functions after \<^verbatim>\<open>parseCSV\<close> are
  written against this type and are embedded on it. \<^verbatim>\<open>parseCSV\<close> itself returns its
  objects under the type by an unchecked cast (\<^verbatim>\<open>obj as unknown as ColorInfo\<close>), so at
  run time a field is \<^verbatim>\<open>undefined\<close> when the header row has no such column; what \<^verbatim>\<open>main\<close>
  does with such objects is embedded on the objects themselves, see \<open>main_writes\<close>.
\<close>

record ColorInfo =
  lang :: jsstring
  lang_abv :: jsstring
  simplifiedName :: jsstring
  commonName :: jsstring
  avgColorRGBCode :: jsstring
  totalColorFraction :: jsstring
  avgL :: jsstring
  avgA :: jsstring
  avgB :: jsstring

text \<open>
  A JavaScript \<^verbatim>\<open>Map\<close>: the entries in insertion order. \<^verbatim>\<open>set\<close> on a key that is
  present replaces the value where the entry stands, on a new key it appends the entry.
  The keys of the program are strings, and \<^verbatim>\<open>undefined\<close> for an object without a
  language (see \<open>raw_language\<close>); on these the key comparison of \<^verbatim>\<open>Map\<close> is equality.
\<close>

type_synonym ('k, 'v) jsmap = "('k \<times> 'v) list"

definition map_has :: "('k, 'v) jsmap \<Rightarrow> 'k \<Rightarrow> bool" where
  "map_has m k \<longleftrightarrow> map_of m k \<noteq> None"

definition map_get :: "('k, 'v) jsmap \<Rightarrow> 'k \<Rightarrow> 'v option" where
  "map_get m k = map_of m k"

fun map_set :: "('k, 'v) jsmap \<Rightarrow> 'k \<Rightarrow> 'v \<Rightarrow> ('k, 'v) jsmap" where
  "map_set [] k v = [(k, v)]"
| "map_set ((k', v') # m) k v =
     (if k' = k then (k, v) # m else (k', v') # map_set m k v)"

text \<open>\<^verbatim>\<open>color.lang_abv || color.lang\<close>: the empty string is the only falsy string.\<close>

definition language_of :: "ColorInfo \<Rightarrow> jsstring" where
  "language_of color = (if lang_abv color \<noteq> [] then lang_abv color else lang color)"

text \<open>
  One round of the loop of \<^verbatim>\<open>groupByLanguage\<close>, \<open>language\<close> being the key expression
  \<^verbatim>\<open>color.lang_abv || color.lang\<close>. The array under the key is shared with the map, so
  \<^verbatim>\<open>push\<close> changes the entry in place. The non-null assertion in \<^verbatim>\<open>grouped.get(lang)!\<close>
  never fails, the key having just been set (\<open>None\<close> below is not reached, see
  \<open>group_push_key_present\<close>).
\<close>

definition group_push :: "('a \<Rightarrow> 'k) \<Rightarrow> ('k, 'a list) jsmap \<Rightarrow> 'a \<Rightarrow> ('k, 'a list) jsmap" where
  "group_push language grouped color =
     (let key = language color;
          grouped1 = (if \<not> map_has grouped key then map_set grouped key [] else grouped)
      in case map_get grouped1 key of
           Some arr \<Rightarrow> map_set grouped1 key (arr @ [color])
         | None \<Rightarrow> grouped1)"

definition groupByLanguage :: "ColorInfo list \<Rightarrow> (jsstring, ColorInfo list) jsmap" where
  "groupByLanguage colors = foldl (group_push language_of) [] colors"

section \<open>The emitters\<close>

text \<open>\<^verbatim>\<open>color.commonName || color.simplifiedName\<close>\<close>

definition entry_name :: "ColorInfo \<Rightarrow> jsstring" where
  "entry_name color =
     (if commonName color \<noteq> [] then commonName color else simplifiedName color)"

text \<open>
  \<^verbatim>\<open>s.replace(/c/g, r)\<close> for a single character \<open>c\<close> and a replacement text \<open>r\<close> without
  a dollar sign: every \<open>c\<close> becomes \<open>r\<close>.
\<close>

definition replace_char :: "jschar \<Rightarrow> jsstring \<Rightarrow> jsstring \<Rightarrow> jsstring" where
  "replace_char c r s = concat (map (\<lambda>x. if x = c then r else [x]) s)"

subsection \<open>\<^verbatim>\<open>generateCSV\<close>\<close>

definition escape_name :: "jsstring \<Rightarrow> jsstring" where
  "escape_name nm =
     (if 44 \<in> set nm \<or> 34 \<in> set nm then [34] @ replace_char 34 [34, 34] nm @ [34] else nm)"

definition csv_row :: "ColorInfo \<Rightarrow> jsstring" where
  "csv_row color = escape_name (entry_name color) @ [44] @ rgbToHex (avgColorRGBCode color)"

text \<open>The array \<^verbatim>\<open>lines\<close> of \<^verbatim>\<open>generateCSV\<close>, and its result.\<close>

definition csv_rows :: "ColorInfo list \<Rightarrow> jsstring list" where
  "csv_rows colors = js ''name,hex'' # map csv_row colors"

definition generateCSV :: "ColorInfo list \<Rightarrow> jsstring" where
  "generateCSV colors = join [10] (csv_rows colors)"

subsection \<open>\<^verbatim>\<open>generateJSON\<close>\<close>

text \<open>\<^verbatim>\<open>interface ColorEntry\<close>, the objects of \<^verbatim>\<open>colorArray\<close>.\<close>

record ColorEntry =
  name :: jsstring
  hex :: jsstring

definition colorArray :: "ColorInfo list \<Rightarrow> ColorEntry list" where
  "colorArray colors =
     map (\<lambda>color. \<lparr>name = entry_name color, hex = rgbToHex (avgColorRGBCode color)\<rparr>) colors"

text \<open>
  \<^verbatim>\<open>JSON.stringify(colorArray, null, 2)\<close> on an array of objects with the two string
  properties. A string is quoted as ECMAScript's QuoteJSONString does: the double quote
  and the backslash (92) get a backslash, the control characters their short escape or
  \<^verbatim>\<open>\u00XX\<close>, a surrogate code unit that is not part of a pair \<^verbatim>\<open>\uXXXX\<close>; every other
  code unit stands for itself.
\<close>

definition unicode_escape :: "jschar \<Rightarrow> jsstring" where
  "unicode_escape c = [92, 117] @ padStart0 4 (toString16 c)"

definition is_lead_surrogate :: "jschar \<Rightarrow> bool" where
  "is_lead_surrogate c \<longleftrightarrow> 55296 \<le> c \<and> c \<le> 56319"

definition is_trail_surrogate :: "jschar \<Rightarrow> bool" where
  "is_trail_surrogate c \<longleftrightarrow> 56320 \<le> c \<and> c \<le> 57343"

fun json_quote_chars :: "jsstring \<Rightarrow> jsstring" where
  "json_quote_chars [] = []"
| "json_quote_chars [c] =
     (if c = 8 then [92, 98] else if c = 9 then [92, 116] else if c = 10 then [92, 110]
      else if c = 12 then [92, 102] else if c = 13 then [92, 114]
      else if c = 34 then [92, 34] else if c = 92 then [92, 92]
      else if c < 32 \<or> is_lead_surrogate c \<or> is_trail_surrogate c then unicode_escape c
      else [c])"
| "json_quote_chars (c # d # s) =
     (if is_lead_surrogate c \<and> is_trail_surrogate d then c # d # json_quote_chars s
      else json_quote_chars [c] @ json_quote_chars (d # s))"

definition json_quote :: "jsstring \<Rightarrow> jsstring" where
  "json_quote s = [34] @ json_quote_chars s @ [34]"

definition json_object :: "ColorEntry \<Rightarrow> jsstring" where
  \<open>json_object e =
     js ''{\<newline>    "name": '' @ json_quote (name e) @
     js '',\<newline>    "hex": '' @ json_quote (hex e) @
     js ''\<newline>  }''\<close>

definition JSON_stringify :: "ColorEntry list \<Rightarrow> jsstring" where
  "JSON_stringify entries =
     (if entries = [] then js ''[]''
      else js ''[\<newline>  '' @ join (js '',\<newline>  '') (map json_object entries) @ js ''\<newline>]'')"

definition generateJSON :: "ColorInfo list \<Rightarrow> jsstring" where
  "generateJSON colors = JSON_stringify (colorArray colors)"

subsection \<open>\<^verbatim>\<open>generateSVG\<close>\<close>

definition RTL_LANGUAGES :: "jsstring list" where
  "RTL_LANGUAGES = [js ''fa'', js ''ar'', js ''he'', js ''ur'']"

definition SVG_TEMPLATE :: jsstring where
  \<open>SVG_TEMPLATE =
     js ''<svg xmlns="http://www.w3.org/2000/svg" viewBox="0 0 600 {height}">\<newline>'' @
     js ''  <defs>\<newline>'' @
     js ''    <style type="text/css">\<newline>'' @
     js ''      @import url('' @ [39] @ js ''https://rsms.me/inter/inter.css'' @ [39] @ js '');\<newline>'' @
     js ''      text {\<newline>'' @
     js ''        font-family: Inter, -apple-system, BlinkMacSystemFont, "Segoe UI", Roboto, Helvetica, Arial, sans-serif, "Apple Color Emoji", "Segoe UI Emoji", "Segoe UI Symbol";\<newline>'' @
     js ''        font-size: 40px;\<newline>'' @
     js ''        font-weight: 900;\<newline>'' @
     js ''      }\<newline>'' @
     js ''    </style>\<newline>'' @
     js ''  </defs>\<newline>'' @
     js ''  <rect fill="#202124" x="0" y="0" width="600" height="{height}"/>\<newline>'' @
     js ''  {items}\<newline>'' @
     js ''</svg>''\<close>

text \<open>
  \<^verbatim>\<open>s.replace(/pat/g, repl)\<close> for a pattern that is a literal, non-empty text, as
  \<^verbatim>\<open>/{height}/g\<close> and \<^verbatim>\<open>/{items}/g\<close> are. The matches are found from the left and do
  not overlap. The replacement text is not inserted as it is: \<^verbatim>\<open>$$\<close> stands for a dollar
  sign (36), \<^verbatim>\<open>$&\<close> for the matched text, \<^verbatim>\<open>$`\<close> for the part of the string before
  the match and \<^verbatim>\<open>$'\<close> for the part after it; the pattern has no groups, so any other
  dollar sign stands for itself.
\<close>

fun expand_replacement :: "jsstring \<Rightarrow> jsstring \<Rightarrow> jsstring \<Rightarrow> jsstring \<Rightarrow> jsstring" where
  "expand_replacement matched preceding following [] = []"
| "expand_replacement matched preceding following [c] = [c]"
| "expand_replacement matched preceding following (c # d # r) =
     (if c = 36 \<and> d = 36 then 36 # expand_replacement matched preceding following r
      else if c = 36 \<and> d = 38 then matched @ expand_replacement matched preceding following r
      else if c = 36 \<and> d = 96 then preceding @ expand_replacement matched preceding following r
      else if c = 36 \<and> d = 39 then following @ expand_replacement matched preceding following r
      else c # expand_replacement matched preceding following (d # r))"

text \<open>
  The scan: \<open>preceding\<close> is the part of the string already passed, \<open>skip\<close> the number of
  characters of the current match still to pass.
\<close>

fun replace_scan :: "jsstring \<Rightarrow> jsstring \<Rightarrow> jsstring \<Rightarrow> nat \<Rightarrow> jsstring \<Rightarrow> jsstring" where
  "replace_scan pat repl preceding skip [] = []"
| "replace_scan pat repl preceding skip (c # rest) =
     (if 0 < skip then replace_scan pat repl (preceding @ [c]) (skip - 1) rest
      else if take (length pat) (c # rest) = pat then
        expand_replacement pat preceding (drop (length pat) (c # rest)) repl @
        replace_scan pat repl (preceding @ [c]) (length pat - 1) rest
      else c # replace_scan pat repl (preceding @ [c]) 0 rest)"

definition replace_all :: "jsstring \<Rightarrow> jsstring \<Rightarrow> jsstring \<Rightarrow> jsstring" where
  "replace_all pat repl s = replace_scan pat repl [] 0 s"

text \<open>
  The name as SVG text:
  \<^verbatim>\<open>.replace(/&/g, '&amp;').replace(/</g, '&lt;').replace(/>/g, '&gt;')\<close>.
\<close>

definition xml_escape :: "jsstring \<Rightarrow> jsstring" where
  "xml_escape nm =
     replace_char 62 (js ''&gt;'') (replace_char 60 (js ''&lt;'') (replace_char 38 (js ''&amp;'') nm))"

text \<open>The text element of the entry at index \<open>i\<close> (the callback of \<^verbatim>\<open>colors.map\<close>).\<close>

definition svg_item :: "bool \<Rightarrow> ColorInfo \<Rightarrow> nat \<Rightarrow> jsstring" where
  \<open>svg_item isRTL color i =
     (let nm = xml_escape (entry_name color);
          hx = rgbToHex (avgColorRGBCode color)
      in if isRTL then
           js ''<text x="560" y="'' @ num_to_string (int (20 + (i + 1) * 70)) @
           js ''" fill="'' @ hx @
           js ''" text-anchor="end" xml:lang="fa" unicode-bidi="embed">'' @ nm @ js ''</text>''
         else
           js ''<text x="40" y="'' @ num_to_string (int (20 + (i + 1) * 70)) @
           js ''" fill="'' @ hx @ js ''">'' @ nm @ js ''</text>'')\<close>

definition svg_items :: "ColorInfo list \<Rightarrow> jsstring \<Rightarrow> jsstring list" where
  "svg_items colors langAbv =
     map (\<lambda>(color, i). svg_item (langAbv \<in> set RTL_LANGUAGES) color i)
       (zip colors [0..<length colors])"

definition svg_height :: "ColorInfo list \<Rightarrow> nat" where
  "svg_height colors = length colors * 70 + 80"

definition generateSVG :: "ColorInfo list \<Rightarrow> jsstring \<Rightarrow> jsstring" where
  "generateSVG colors langAbv =
     replace_all (js ''{items}'') (join (js ''\<newline>  '') (svg_items colors langAbv))
       (replace_all (js ''{height}'') (num_to_string (int (svg_height colors))) SVG_TEMPLATE)"

section \<open>File names and the run of the script\<close>

text \<open>
  \<^verbatim>\<open>toLowerCase\<close>. On a string of ASCII characters it moves the letters A to Z to a to
  z and leaves every other character. On a string with a character outside ASCII
  JavaScript converts with the case tables of Unicode, which also look at the
  neighbours of a character and may change the length; these tables are the parameter
  \<open>unicode_lower\<close>, about which nothing is assumed.
\<close>

definition toLowerCase :: "(jsstring \<Rightarrow> jsstring) \<Rightarrow> jsstring \<Rightarrow> jsstring" where
  "toLowerCase unicode_lower s =
     (if list_all (\<lambda>c. c < 128) s
      then map (\<lambda>c. if 65 \<le> c \<and> c \<le> 90 then c + 32 else c) s
      else unicode_lower s)"

text \<open>\<^verbatim>\<open>s.replace(/\s+/g, '-')\<close>: every maximal run of white space becomes one hyphen.\<close>

fun hyphenate_run :: "bool \<Rightarrow> jsstring \<Rightarrow> jsstring" where
  "hyphenate_run in_run [] = []"
| "hyphenate_run in_run (c # s) =
     (if is_space c then (if in_run then hyphenate_run True s else 45 # hyphenate_run True s)
      else c # hyphenate_run False s)"

definition hyphenate :: "jsstring \<Rightarrow> jsstring" where
  "hyphenate s = hyphenate_run False s"

text \<open>\<^verbatim>\<open>colors[0]?.lang || langAbv\<close> is \<^verbatim>\<open>langAbv\<close> for an empty group or an empty name.\<close>

definition getLanguageBasename ::
  "(jsstring \<Rightarrow> jsstring) \<Rightarrow> jsstring \<Rightarrow> ColorInfo list \<Rightarrow> jsstring" where
  "getLanguageBasename unicode_lower langAbv colors =
     (let fullLang = (case colors of [] \<Rightarrow> langAbv
                      | c # cs \<Rightarrow> if lang c \<noteq> [] then lang c else langAbv);
          englishName = hyphenate (toLowerCase unicode_lower (trim (hd (split_on 40 fullLang))))
      in langAbv @ js ''-'' @ englishName)"

text \<open>
  The three files of one language in \<^verbatim>\<open>main\<close>, in the order in which they are written,
  each with its directory, its name and its content.
\<close>

datatype out_dir = DATA_DIR | JSON_DIR | SVG_DIR

definition language_files ::
  "(jsstring \<Rightarrow> jsstring) \<Rightarrow> jsstring \<times> ColorInfo list \<Rightarrow> (out_dir \<times> jsstring \<times> jsstring) list" where
  "language_files unicode_lower entry =
     (case entry of (langAbv, langColors) \<Rightarrow>
        let basename = getLanguageBasename unicode_lower langAbv langColors
        in [(DATA_DIR, basename @ js ''.csv'', generateCSV langColors),
            (JSON_DIR, basename @ js ''.json'', generateJSON langColors),
            (SVG_DIR, basename @ js ''.svg'', generateSVG langColors langAbv)])"

text \<open>
  \<^verbatim>\<open>main\<close> works on the objects of \<^verbatim>\<open>parseCSV\<close> as they are, and a property whose column
  the header row does not name is \<^verbatim>\<open>undefined\<close> (\<open>None\<close>).

  \<^verbatim>\<open>color.lang_abv || color.lang\<close> on such an object: a short code that is missing or
  empty gives the full name, which may be missing itself; \<^verbatim>\<open>groupByLanguage\<close> then files
  the object under the key \<^verbatim>\<open>undefined\<close>.
\<close>

definition raw_language :: "jsobject \<Rightarrow> jsstring option" where
  "raw_language obj =
     (case obj (js ''lang_abv'') of
        Some v \<Rightarrow> if v \<noteq> [] then Some v else obj (js ''lang'')
      | None \<Rightarrow> obj (js ''lang''))"

definition groupByLanguage_objects ::
  "jsobject list \<Rightarrow> (jsstring option, jsobject list) jsmap" where
  "groupByLanguage_objects objs = foldl (group_push raw_language) [] objs"

text \<open>
  The loop over the groups calls \<^verbatim>\<open>getLanguageBasename\<close>, \<^verbatim>\<open>generateCSV\<close>, \<^verbatim>\<open>generateJSON\<close>
  and \<^verbatim>\<open>generateSVG\<close>, which read four properties of an object: \<^verbatim>\<open>lang\<close>, \<^verbatim>\<open>commonName\<close>,
  \<^verbatim>\<open>simplifiedName\<close> and \<^verbatim>\<open>avgColorRGBCode\<close>.

  \<^item> \<^verbatim>\<open>colors[0]?.lang || langAbv\<close> and \<^verbatim>\<open>color.commonName || color.simplifiedName\<close> take
    a missing first operand as they take the empty string.
  \<^item> \<^verbatim>\<open>generateCSV\<close>, which runs first, raises a \<^verbatim>\<open>TypeError\<close> on an object whose
    \<^verbatim>\<open>avgColorRGBCode\<close> is missing (\<^verbatim>\<open>rgb.match\<close> in \<^verbatim>\<open>rgbToHex\<close>) or whose name is missing
    (\<^verbatim>\<open>name.includes\<close>), that is one with no \<^verbatim>\<open>simplifiedName\<close> and a \<^verbatim>\<open>commonName\<close>
    missing or empty. An object is \<open>readable\<close> when neither is the case.
  \<^item> \<^verbatim>\<open>getLanguageBasename\<close> raises a \<^verbatim>\<open>TypeError\<close> for the group under the key
    \<^verbatim>\<open>undefined\<close> (\<^verbatim>\<open>fullLang.split\<close>): its objects have no \<^verbatim>\<open>lang\<close>.

  On a readable object under a string key the functions compute what they compute on
  the record \<open>to_ColorInfo\<close> of the object, in which a missing property is the empty
  string: of the properties read, only \<^verbatim>\<open>lang\<close> and \<^verbatim>\<open>commonName\<close> can be missing without
  an error, or \<^verbatim>\<open>simplifiedName\<close> beside a non-empty \<^verbatim>\<open>commonName\<close>, where it is not used.
\<close>

definition property_or_empty :: "jsobject \<Rightarrow> jsstring \<Rightarrow> jsstring" where
  "property_or_empty obj k = (case obj k of Some v \<Rightarrow> v | None \<Rightarrow> [])"

definition to_ColorInfo :: "jsobject \<Rightarrow> ColorInfo" where
  "to_ColorInfo obj =
     \<lparr>lang = property_or_empty obj (js ''lang''),
      lang_abv = property_or_empty obj (js ''lang_abv''),
      simplifiedName = property_or_empty obj (js ''simplifiedName''),
      commonName = property_or_empty obj (js ''commonName''),
      avgColorRGBCode = property_or_empty obj (js ''avgColorRGBCode''),
      totalColorFraction = property_or_empty obj (js ''totalColorFraction''),
      avgL = property_or_empty obj (js ''avgL''),
      avgA = property_or_empty obj (js ''avgA''),
      avgB = property_or_empty obj (js ''avgB'')\<rparr>"

definition readable :: "jsobject \<Rightarrow> bool" where
  "readable obj \<longleftrightarrow>
     obj (js ''avgColorRGBCode'') \<noteq> None \<and>
     (property_or_empty obj (js ''commonName'') \<noteq> [] \<or> obj (js ''simplifiedName'') \<noteq> None)"

text \<open>
  The run of \<^verbatim>\<open>main\<close> after the download: the files written, in order, and how the run
  ends. A group raises in \<^verbatim>\<open>getLanguageBasename\<close> or in \<^verbatim>\<open>generateCSV\<close>, which both run
  before the first file of the group is written; where they return, \<^verbatim>\<open>generateJSON\<close> and
  \<^verbatim>\<open>generateSVG\<close> return too. So the first group that raises writes nothing, the files of
  the groups before it stay written, and the run ends there (\<^verbatim>\<open>main().catch\<close> reports
  the error and exits).
\<close>

datatype outcome = Completed | TypeError

fun write_groups ::
  "(jsstring \<Rightarrow> jsstring) \<Rightarrow> (jsstring option, jsobject list) jsmap \<Rightarrow>
   (out_dir \<times> jsstring \<times> jsstring) list \<times> outcome" where
  "write_groups unicode_lower [] = ([], Completed)"
| "write_groups unicode_lower ((key, langColors) # groups) =
     (case key of
        None \<Rightarrow> ([], TypeError)
      | Some langAbv \<Rightarrow>
          if list_all readable langColors then
            (case write_groups unicode_lower groups of
               (files, outcome) \<Rightarrow>
                 (language_files unicode_lower (langAbv, map to_ColorInfo langColors) @ files,
                  outcome))
          else ([], TypeError))"

definition main_writes ::
  "(jsstring \<Rightarrow> jsstring) \<Rightarrow> jsstring \<Rightarrow> (out_dir \<times> jsstring \<times> jsstring) list \<times> outcome" where
  "main_writes unicode_lower csvData =
     write_groups unicode_lower (groupByLanguage_objects (parseCSV csvData))"

section \<open>Notions of the specification: groups, emitted rows, the SVG document\<close>

text \<open>The keys of a list in the order of their first occurrence.\<close>

definition first_seen :: "jsstring list \<Rightarrow> jsstring list" where
  "first_seen ks = rev (remdups (rev ks))"

text \<open>The records of one language, in the order of the input.\<close>

definition records_of :: "jsstring \<Rightarrow> ColorInfo list \<Rightarrow> ColorInfo list" where
  "records_of k colors = filter (\<lambda>color. language_of color = k) colors"


text \<open>
  The SVG document around the text elements: the text of the template up to the place of
  the items, with \<open>h\<close> written as the height in the \<^verbatim>\<open>viewBox\<close> (whose width is 600) and in
  the background rectangle (of width 600), and the text after the items.
\<close>

definition svg_prefix :: "jsstring \<Rightarrow> jsstring" where
  \<open>svg_prefix h =
     js ''<svg xmlns="http://www.w3.org/2000/svg" viewBox="0 0 600 '' @ h @ js ''">\<newline>'' @
     js ''  <defs>\<newline>'' @
     js ''    <style type="text/css">\<newline>'' @
     js ''      @import url('' @ [39] @ js ''https://rsms.me/inter/inter.css'' @ [39] @ js '');\<newline>'' @
     js ''      text {\<newline>'' @
     js ''        font-family: Inter, -apple-system, BlinkMacSystemFont, "Segoe UI", Roboto, Helvetica, Arial, sans-serif, "Apple Color Emoji", "Segoe UI Emoji", "Segoe UI Symbol";\<newline>'' @
     js ''        font-size: 40px;\<newline>'' @
     js ''        font-weight: 900;\<newline>'' @
     js ''      }\<newline>'' @
     js ''    </style>\<newline>'' @
     js ''  </defs>\<newline>'' @
     js ''  <rect fill="#202124" x="0" y="0" width="600" height="'' @ h @ js ''"/>\<newline>'' @
     js ''  ''\<close>

definition svg_suffix :: jsstring where
  \<open>svg_suffix = js ''\<newline></svg>''\<close>

text \<open>A text element at the height \<open>y\<close>, filled with the colour \<open>fill\<close>.\<close>

definition svg_text_element :: "bool \<Rightarrow> int \<Rightarrow> jsstring \<Rightarrow> jsstring \<Rightarrow> jsstring" where
  \<open>svg_text_element rtl y fill content =
     (if rtl then
        js ''<text x="560" y="'' @ num_to_string y @ js ''" fill="'' @ fill @
        js ''" text-anchor="end" xml:lang="fa" unicode-bidi="embed">'' @ content @ js ''</text>''
      else
        js ''<text x="40" y="'' @ num_to_string y @ js ''" fill="'' @ fill @ js ''">'' @
        content @ js ''</text>'')\<close>

text \<open>
  The end-to-end scenario: the header row names the nine columns of the upstream file,
  which are the fields of \<^verbatim>\<open>ColorInfo\<close> in their order, and one data row follows.
\<close>

definition scenario_csv :: jsstring where
  \<open>scenario_csv =
     js ''lang,lang_abv,simplifiedName,commonName,avgColorRGBCode,totalColorFraction,avgL,avgA,avgB\<newline>'' @
     js ''Spanish,es,claro,light blue,"rgb(91, 155, 213)",0.02,70,1,-30''\<close>

definition scenario_record :: ColorInfo where
  "scenario_record =
     \<lparr>lang = js ''Spanish'', lang_abv = js ''es'', simplifiedName = js ''claro'',
      commonName = js ''light blue'', avgColorRGBCode = js ''rgb(91, 155, 213)'',
      totalColorFraction = js ''0.02'', avgL = js ''70'', avgA = js ''1'', avgB = js ''-30''\<rparr>"

text \<open>
  Three more inputs for the run of the script. The first names only four of the columns,
  which are enough for the three files (the record of its data row has the empty string
  in the other fields). The second adds a row without a \<^verbatim>\<open>commonName\<close>, for which, there
  being no \<^verbatim>\<open>simplifiedName\<close>, no name can be read. The third has no column
  \<^verbatim>\<open>avgColorRGBCode\<close>.
\<close>

definition four_column_csv :: jsstring where
  \<open>four_column_csv =
     js ''lang_abv,lang,commonName,avgColorRGBCode\<newline>'' @
     js ''es,Spanish,light blue,"rgb(91, 155, 213)"''\<close>

definition four_column_record :: ColorInfo where
  "four_column_record =
     \<lparr>lang = js ''Spanish'', lang_abv = js ''es'', simplifiedName = [],
      commonName = js ''light blue'', avgColorRGBCode = js ''rgb(91, 155, 213)'',
      totalColorFraction = [], avgL = [], avgA = [], avgB = []\<rparr>"

definition stopped_csv :: jsstring where
  \<open>stopped_csv =
     js ''lang_abv,lang,commonName,avgColorRGBCode\<newline>'' @
     js ''es,Spanish,light blue,"rgb(91, 155, 213)"\<newline>'' @
     js ''fr,French,,"rgb(1, 2, 3)"''\<close>

definition no_colour_csv :: jsstring where
  \<open>no_colour_csv = js ''lang,lang_abv,commonName\<newline>Spanish,es,light blue''\<close>

section \<open>Notions of the specification: the pattern and hex colours\<close>

text \<open>
  The strings of the pattern, read off the regular expression: \<open>rgb\<close>, an opening
  parenthesis, three integer literals (an optional minus sign and at least one digit)
  separated by commas, a closing parenthesis, with any white space after \<open>rgb\<close>, around
  each literal and around the commas.
\<close>

definition int_literal :: "jsstring \<Rightarrow> bool" where
  "int_literal m \<longleftrightarrow>
     (let ds = (case m of c # t \<Rightarrow> if c = 45 then t else m | [] \<Rightarrow> m)
      in ds \<noteq> [] \<and> list_all is_digit ds)"

definition literal_value :: "jsstring \<Rightarrow> int" where
  "literal_value m =
     (case m of c # t \<Rightarrow> if c = 45 then - int (digits_val t) else int (digits_val m)
      | [] \<Rightarrow> 0)"

definition rgb_text ::
  "jsstring \<Rightarrow> jsstring \<Rightarrow> jsstring \<Rightarrow> jsstring \<Rightarrow> jsstring \<Rightarrow> jsstring \<Rightarrow> jsstring \<Rightarrow>
   jsstring \<Rightarrow> jsstring \<Rightarrow> jsstring \<Rightarrow> jsstring" where
  "rgb_text w1 w2 m1 w3 w4 m2 w5 w6 m3 w7 =
     js ''rgb'' @ w1 @ js ''('' @ w2 @ m1 @ w3 @ js '','' @ w4 @ m2 @ w5 @ js '','' @
     w6 @ m3 @ w7 @ js '')''"


text \<open>The regular expression finds a match somewhere in the string.\<close>

definition rgb_occurs :: "jsstring \<Rightarrow> bool" where
  "rgb_occurs s \<longleftrightarrow>
     (\<exists>pre suf w1 w2 m1 w3 w4 m2 w5 w6 m3 w7.
        list_all is_space w1 \<and> list_all is_space w2 \<and> list_all is_space w3 \<and>
        list_all is_space w4 \<and> list_all is_space w5 \<and> list_all is_space w6 \<and>
        list_all is_space w7 \<and> int_literal m1 \<and> int_literal m2 \<and> int_literal m3 \<and>
        s = pre @ rgb_text w1 w2 m1 w3 w4 m2 w5 w6 m3 w7 @ suf)"

text \<open>Two lowercase hexadecimal digits for a channel value.\<close>

definition hex2 :: "int \<Rightarrow> jsstring" where
  "hex2 n = [hex_digit (nat n div 16), hex_digit (nat n mod 16)]"

text \<open>The string \<^verbatim>\<open>rgb(r, g, b)\<close> for three integers.\<close>

definition rgb_string :: "int \<Rightarrow> int \<Rightarrow> int \<Rightarrow> jsstring" where
  "rgb_string r g b =
     js ''rgb('' @ num_to_string r @ js '', '' @ num_to_string g @ js '', '' @
     num_to_string b @ js '')''"

text \<open>Reading a colour \<^verbatim>\<open>#rrggbb\<close> back: each pair of hexadecimal digits as an integer.\<close>

definition hex_val :: "jschar \<Rightarrow> nat option" where
  "hex_val c =
     (if 48 \<le> c \<and> c \<le> 57 then Some (c - 48)
      else if 97 \<le> c \<and> c \<le> 102 then Some (c - 87)
      else if 65 \<le> c \<and> c \<le> 70 then Some (c - 55)
      else None)"

definition parse_hex2 :: "jschar \<Rightarrow> jschar \<Rightarrow> int option" where
  "parse_hex2 a b =
     (case (hex_val a, hex_val b) of
        (Some x, Some y) \<Rightarrow> Some (int (16 * x + y))
      | _ \<Rightarrow> None)"

definition parse_hex_color :: "jsstring \<Rightarrow> (int \<times> int \<times> int) option" where
  "parse_hex_color h =
     (case h of
        [c0, c1, c2, c3, c4, c5, c6] \<Rightarrow>
          (if c0 = 35 then
             (case (parse_hex2 c1 c2, parse_hex2 c3 c4, parse_hex2 c5 c6) of
                (Some r, Some g, Some b) \<Rightarrow> Some (r, g, b)
              | _ \<Rightarrow> None)
           else None)
      | _ \<Rightarrow> None)"

section \<open>Notions of the specification: reading the emitted files back\<close>


subsection \<open>The JSON text\<close>

text \<open>
  A reader of JSON texts that hold an array of objects with the two members \<^verbatim>\<open>name\<close>
  and \<^verbatim>\<open>hex\<close>, in this order, both strings. White space between the tokens (space, tab,
  line feed, carriage return) is skipped.
\<close>

definition json_space :: "jschar \<Rightarrow> bool" where
  "json_space c \<longleftrightarrow> c = 32 \<or> c = 9 \<or> c = 10 \<or> c = 13"

definition expect :: "jschar \<Rightarrow> jsstring \<Rightarrow> jsstring option" where
  "expect c s =
     (case dropWhile json_space s of x # r \<Rightarrow> if x = c then Some r else None | [] \<Rightarrow> None)"

text \<open>The character after a backslash in a string, other than \<^verbatim>\<open>u\<close>.\<close>

definition unescape :: "jschar \<Rightarrow> jschar option" where
  "unescape c =
     (if c = 34 then Some 34 else if c = 92 then Some 92 else if c = 47 then Some 47
      else if c = 98 then Some 8 else if c = 102 then Some 12 else if c = 110 then Some 10
      else if c = 114 then Some 13 else if c = 116 then Some 9 else None)"

text \<open>
  A string after its opening quote: the characters up to the closing quote, every escape
  sequence read as the character it stands for (\<^verbatim>\<open>\uXXXX\<close> as the code unit with the four
  hexadecimal digits), and the text after the closing quote. A string that does not end
  or holds an escape sequence that JSON does not have is not read (\<open>None\<close>).
\<close>

datatype string_state = In_text | After_backslash | In_hex "nat list"

fun read_string :: "string_state \<Rightarrow> jsstring \<Rightarrow> jsstring \<Rightarrow> (jsstring \<times> jsstring) option" where
  "read_string st acc [] = None"
| "read_string In_text acc (c # s) =
     (if c = 34 then Some (acc, s)
      else if c = 92 then read_string After_backslash acc s
      else read_string In_text (acc @ [c]) s)"
| "read_string After_backslash acc (c # s) =
     (if c = 117 then read_string (In_hex []) acc s
      else case unescape c of
             Some v \<Rightarrow> read_string In_text (acc @ [v]) s
           | None \<Rightarrow> None)"
| "read_string (In_hex ds) acc (c # s) =
     (case hex_val c of
        None \<Rightarrow> None
      | Some d \<Rightarrow>
          if length ds = 3
          then read_string In_text (acc @ [foldl (\<lambda>v x. 16 * v + x) 0 (ds @ [d])]) s
          else read_string (In_hex (ds @ [d])) acc s)"

text \<open>A string, a member with a given name, and an object with the two members.\<close>

definition read_literal :: "jsstring \<Rightarrow> (jsstring \<times> jsstring) option" where
  "read_literal s = Option.bind (expect 34 s) (read_string In_text [])"





subsection \<open>The CSV text\<close>






section \<open>The colour converter: proofs\<close>

subsection \<open>The scan at one start position\<close>

lemma js_simps: "js [] = []" "js (c # s) = of_char c # js s" "js (s @ t) = js s @ js t"
  by (simp_all add: js_def)

lemma space_not_digit: "is_space c \<Longrightarrow> \<not> is_digit c"
  by (auto simp: is_space_def is_digit_def)

lemma match_lit_append: "match_lit p (p @ s) = Some s"
  by (induction p) auto

lemma match_lit_SomeD: "match_lit p s = Some t \<Longrightarrow> s = p @ t"
  by (induction p s rule: match_lit.induct) (auto split: if_splits)

lemma skip_ws_append:
  "list_all is_space w \<Longrightarrow> t = [] \<or> \<not> is_space (hd t) \<Longrightarrow> skip_ws (w @ t) = t"
  by (cases t) (auto simp: skip_ws_def list_all_iff dropWhile_append2)

lemma skip_ws_decomp: "\<exists>w. list_all is_space w \<and> s = w @ skip_ws s"
  by (rule exI[of _ "takeWhile is_space s"]) (auto simp: skip_ws_def list_all_iff dest: set_takeWhileD)

lemma int_literal_cases:
  "int_literal m \<longleftrightarrow> (\<exists>ds. ds \<noteq> [] \<and> list_all is_digit ds \<and> (m = ds \<or> m = 45 # ds))"
  by (cases m) (auto simp: int_literal_def is_digit_def)

lemma takeWhile_digits:
  "list_all is_digit ds \<Longrightarrow> t = [] \<or> \<not> is_digit (hd t) \<Longrightarrow> takeWhile is_digit (ds @ t) = ds"
  by (cases t) (auto simp: list_all_iff takeWhile_append2)

lemma dropWhile_digits:
  "list_all is_digit ds \<Longrightarrow> t = [] \<or> \<not> is_digit (hd t) \<Longrightarrow> dropWhile is_digit (ds @ t) = t"
  by (cases t) (auto simp: list_all_iff dropWhile_append2)

lemma match_int_minus:
  "match_int (45 # t) =
     (if takeWhile is_digit t = [] then None
      else Some (45 # takeWhile is_digit t, dropWhile is_digit t))"
  by (simp add: match_int_def Let_def)

lemma match_int_plain:
  "s = [] \<or> hd s \<noteq> 45 \<Longrightarrow>
   match_int s =
     (if takeWhile is_digit s = [] then None
      else Some (takeWhile is_digit s, dropWhile is_digit s))"
  by (cases s) (auto simp: match_int_def Let_def)

lemma match_int_append:
  assumes "int_literal m" "t = [] \<or> \<not> is_digit (hd t)"
  shows "match_int (m @ t) = Some (m, t)"
proof -
  from assms(1) obtain ds where ds: "ds \<noteq> []" "list_all is_digit ds" "m = ds \<or> m = 45 # ds"
    by (auto simp: int_literal_cases)
  from ds(1,2) have hd: "ds @ t = [] \<or> hd (ds @ t) \<noteq> 45"
    by (cases ds) (auto simp: is_digit_def)
  have tw: "takeWhile is_digit (ds @ t) = ds" and dw: "dropWhile is_digit (ds @ t) = t"
    using ds(2) assms(2) by (rule takeWhile_digits, rule dropWhile_digits)
  from ds(3) show ?thesis
  proof
    assume "m = ds"
    then show ?thesis using match_int_plain[OF hd] ds(1) by (simp add: tw dw)
  next
    assume "m = 45 # ds"
    then show ?thesis using match_int_minus[of "ds @ t"] ds(1) by (simp add: tw dw)
  qed
qed

lemma takeWhile_digits_all: "list_all is_digit (takeWhile is_digit s)"
  by (auto simp: list_all_iff dest: set_takeWhileD)

lemma match_int_SomeD:
  assumes "match_int s = Some (m, t)"
  shows "int_literal m \<and> s = m @ t"
proof (cases "s \<noteq> [] \<and> hd s = 45")
  case True
  then obtain u where u: "s = 45 # u" by (cases s) auto
  with assms show ?thesis
    by (auto simp: match_int_minus int_literal_cases takeWhile_digits_all split: if_splits
        intro!: exI[of _ "takeWhile is_digit u"])
next
  case False
  then have "s = [] \<or> hd s \<noteq> 45" by auto
  from assms match_int_plain[OF this] show ?thesis
    by (auto simp: int_literal_cases takeWhile_digits_all split: if_splits
        intro!: exI[of _ "takeWhile is_digit s"])
qed


lemma skip_then_lit:
  "list_all is_space w \<Longrightarrow> \<not> is_space c \<Longrightarrow> match_lit [c] (skip_ws (w @ c # rest)) = Some rest"
  by (simp add: skip_ws_append)

lemma int_literal_hd:
  assumes "int_literal m"
  shows "m \<noteq> [] \<and> \<not> is_space (hd m) \<and> hd m \<noteq> 43"
proof -
  from assms obtain ds where ds: "ds \<noteq> []" "list_all is_digit ds" "m = ds \<or> m = 45 # ds"
    by (auto simp: int_literal_cases)
  from ds(1,2) have "is_digit (hd ds)" by (cases ds) auto
  with ds(1,3) show ?thesis by (auto simp: is_space_def is_digit_def)
qed

lemma skip_then_int:
  assumes "list_all is_space w" "int_literal m" "t = [] \<or> \<not> is_digit (hd t)"
  shows "match_int (skip_ws (w @ m @ t)) = Some (m, t)"
proof -
  from int_literal_hd[OF assms(2)] have "m @ t = [] \<or> \<not> is_space (hd (m @ t))" by simp
  with assms(1) have "skip_ws (w @ m @ t) = m @ t" by (rule skip_ws_append)
  with assms(2,3) show ?thesis by (simp add: match_int_append)
qed

lemma ws_then_nondigit:
  "list_all is_space w \<Longrightarrow> \<not> is_digit c \<Longrightarrow> w @ c # rest = [] \<or> \<not> is_digit (hd (w @ c # rest))"
  by (cases w) (auto simp: space_not_digit)

lemma js_lits:
  "js ''rgb'' = [114, 103, 98]" "js ''('' = [40]" "js '','' = [44]" "js '')'' = [41]"
  by (simp_all add: js_def)

lemma rgb_match_here_text:
  assumes ws: "list_all is_space w1" "list_all is_space w2" "list_all is_space w3"
    "list_all is_space w4" "list_all is_space w5" "list_all is_space w6" "list_all is_space w7"
    and ms: "int_literal m1" "int_literal m2" "int_literal m3"
  shows "rgb_match_here (rgb_text w1 w2 m1 w3 w4 m2 w5 w6 m3 w7 @ suf) = Some (m1, m2, m3)"
proof -
  have sp: "\<not> is_space 40" "\<not> is_space 44" "\<not> is_space 41"
    and dg: "\<not> is_digit 44" "\<not> is_digit 41"
    by (simp_all add: is_space_def is_digit_def)
  define t7 where "t7 = w7 @ 41 # suf"
  define t6 where "t6 = w6 @ m3 @ t7"
  define t5 where "t5 = w5 @ 44 # t6"
  define t4 where "t4 = w4 @ m2 @ t5"
  define t3 where "t3 = w3 @ 44 # t4"
  define t2 where "t2 = w2 @ m1 @ t3"
  define t1 where "t1 = w1 @ 40 # t2"
  have s: "rgb_text w1 w2 m1 w3 w4 m2 w5 w6 m3 w7 @ suf = js ''rgb'' @ t1"
    by (simp add: rgb_text_def js_lits t1_def t2_def t3_def t4_def t5_def t6_def t7_def)
  have a1: "match_lit (js ''rgb'') (js ''rgb'' @ t1) = Some t1"
    by (rule match_lit_append)
  have a2: "match_lit (js ''('') (skip_ws t1) = Some t2"
    unfolding t1_def js_lits by (rule skip_then_lit[OF ws(1) sp(1)])
  have a3: "match_int (skip_ws t2) = Some (m1, t3)"
    unfolding t2_def by (rule skip_then_int[OF ws(2) ms(1)])
      (simp only: t3_def ws_then_nondigit[OF ws(3) dg(1)])
  have a4: "match_lit (js '','') (skip_ws t3) = Some t4"
    unfolding t3_def js_lits by (rule skip_then_lit[OF ws(3) sp(2)])
  have a5: "match_int (skip_ws t4) = Some (m2, t5)"
    unfolding t4_def by (rule skip_then_int[OF ws(4) ms(2)])
      (simp only: t5_def ws_then_nondigit[OF ws(5) dg(1)])
  have a6: "match_lit (js '','') (skip_ws t5) = Some t6"
    unfolding t5_def js_lits by (rule skip_then_lit[OF ws(5) sp(2)])
  have a7: "match_int (skip_ws t6) = Some (m3, t7)"
    unfolding t6_def by (rule skip_then_int[OF ws(6) ms(3)])
      (simp only: t7_def ws_then_nondigit[OF ws(7) dg(2)])
  have a8: "match_lit (js '')'') (skip_ws t7) = Some suf"
    unfolding t7_def js_lits by (rule skip_then_lit[OF ws(7) sp(3)])
  show ?thesis
    unfolding s rgb_match_here_def by (simp only: a1 a2 a3 a4 a5 a6 a7 a8 Option.bind.simps prod.case)
qed

lemma rgb_match_here_SomeD:
  assumes "rgb_match_here s = Some (m1, m2, m3)"
  shows "\<exists>w1 w2 w3 w4 w5 w6 w7 suf.
           list_all is_space w1 \<and> list_all is_space w2 \<and> list_all is_space w3 \<and>
           list_all is_space w4 \<and> list_all is_space w5 \<and> list_all is_space w6 \<and>
           list_all is_space w7 \<and> int_literal m1 \<and> int_literal m2 \<and> int_literal m3 \<and>
           s = rgb_text w1 w2 m1 w3 w4 m2 w5 w6 m3 w7 @ suf"
proof -
  from assms obtain s1 s2 s3 s4 s5 s6 s7 s8 where
    b1: "match_lit (js ''rgb'') s = Some s1" and
    b2: "match_lit (js ''('') (skip_ws s1) = Some s2" and
    b3: "match_int (skip_ws s2) = Some (m1, s3)" and
    b4: "match_lit (js '','') (skip_ws s3) = Some s4" and
    b5: "match_int (skip_ws s4) = Some (m2, s5)" and
    b6: "match_lit (js '','') (skip_ws s5) = Some s6" and
    b7: "match_int (skip_ws s6) = Some (m3, s7)" and
    b8: "match_lit (js '')'') (skip_ws s7) = Some s8"
    unfolding rgb_match_here_def
    by (auto simp: bind_eq_Some_conv)
  obtain w1 where w1: "list_all is_space w1" "s1 = w1 @ skip_ws s1" using skip_ws_decomp by blast
  obtain w2 where w2: "list_all is_space w2" "s2 = w2 @ skip_ws s2" using skip_ws_decomp by blast
  obtain w3 where w3: "list_all is_space w3" "s3 = w3 @ skip_ws s3" using skip_ws_decomp by blast
  obtain w4 where w4: "list_all is_space w4" "s4 = w4 @ skip_ws s4" using skip_ws_decomp by blast
  obtain w5 where w5: "list_all is_space w5" "s5 = w5 @ skip_ws s5" using skip_ws_decomp by blast
  obtain w6 where w6: "list_all is_space w6" "s6 = w6 @ skip_ws s6" using skip_ws_decomp by blast
  obtain w7 where w7: "list_all is_space w7" "s7 = w7 @ skip_ws s7" using skip_ws_decomp by blast
  note c1 = match_lit_SomeD[OF b1] and c2 = match_lit_SomeD[OF b2]
    and c3 = match_int_SomeD[OF b3] and c4 = match_lit_SomeD[OF b4]
    and c5 = match_int_SomeD[OF b5] and c6 = match_lit_SomeD[OF b6]
    and c7 = match_int_SomeD[OF b7] and c8 = match_lit_SomeD[OF b8]
  have "s = rgb_text w1 w2 m1 w3 w4 m2 w5 w6 m3 w7 @ s8"
    unfolding rgb_text_def
    apply (subst c1, subst w1(2), subst c2, subst w2(2))
    apply (subst conjunct2[OF c3], subst w3(2), subst c4, subst w4(2))
    apply (subst conjunct2[OF c5], subst w5(2), subst c6, subst w6(2))
    apply (subst conjunct2[OF c7], subst w7(2), subst c8)
    apply simp
    done
  with w1(1) w2(1) w3(1) w4(1) w5(1) w6(1) w7(1) c3 c5 c7 show ?thesis
    apply (rule_tac exI[of _ w1], rule_tac exI[of _ w2], rule_tac exI[of _ w3])
    apply (rule_tac exI[of _ w4], rule_tac exI[of _ w5], rule_tac exI[of _ w6])
    apply (rule_tac exI[of _ w7], rule_tac exI[of _ s8])
    apply (intro conjI; (elim conjE)?; assumption)
    done
qed


lemma rgb_occursI:
  assumes "list_all is_space w1" "list_all is_space w2" "list_all is_space w3"
    "list_all is_space w4" "list_all is_space w5" "list_all is_space w6" "list_all is_space w7"
    "int_literal m1" "int_literal m2" "int_literal m3"
    "s = pre @ rgb_text w1 w2 m1 w3 w4 m2 w5 w6 m3 w7 @ suf"
  shows "rgb_occurs s"
  unfolding rgb_occurs_def
  apply (rule exI[of _ pre], rule exI[of _ suf], rule exI[of _ w1], rule exI[of _ w2])
  apply (rule exI[of _ m1], rule exI[of _ w3], rule exI[of _ w4], rule exI[of _ m2])
  apply (rule exI[of _ w5], rule exI[of _ w6], rule exI[of _ m3], rule exI[of _ w7])
  apply (intro conjI)
  apply (rule assms)+
  done

lemma rgb_occurs_Cons: "rgb_occurs t \<Longrightarrow> rgb_occurs (c # t)"
proof -
  assume "rgb_occurs t"
  then obtain pre suf w1 w2 m1 w3 w4 m2 w5 w6 m3 w7 where
    h: "list_all is_space w1" "list_all is_space w2" "list_all is_space w3"
      "list_all is_space w4" "list_all is_space w5" "list_all is_space w6"
      "list_all is_space w7" "int_literal m1" "int_literal m2" "int_literal m3"
    and t: "t = pre @ rgb_text w1 w2 m1 w3 w4 m2 w5 w6 m3 w7 @ suf"
    unfolding rgb_occurs_def by (elim exE conjE)
  from t have "c # t = (c # pre) @ rgb_text w1 w2 m1 w3 w4 m2 w5 w6 m3 w7 @ suf" by simp
  with h show ?thesis by (rule rgb_occursI)
qed

lemma rgb_match_here_occurs:
  assumes "rgb_match_here s = Some (m1, m2, m3)"
  shows "rgb_occurs s"
proof -
  from rgb_match_here_SomeD[OF assms] obtain w1 w2 w3 w4 w5 w6 w7 suf where
    h: "list_all is_space w1" "list_all is_space w2" "list_all is_space w3"
      "list_all is_space w4" "list_all is_space w5" "list_all is_space w6"
      "list_all is_space w7" "int_literal m1" "int_literal m2" "int_literal m3"
    and s: "s = rgb_text w1 w2 m1 w3 w4 m2 w5 w6 m3 w7 @ suf"
    by (elim exE conjE)
  from s have "s = [] @ rgb_text w1 w2 m1 w3 w4 m2 w5 w6 m3 w7 @ suf" by simp
  with h show ?thesis by (rule rgb_occursI)
qed

lemma rgb_match_Some_occurs: "rgb_match s = Some ms \<Longrightarrow> rgb_occurs s"
proof (induction s)
  case Nil
  then show ?case
    by (simp add: rgb_match.simps[of "[]"] rgb_match_here_def js_lits)
next
  case (Cons c t)
  show ?case
  proof (cases "rgb_match_here (c # t)")
    case None
    with Cons.prems have "rgb_match t = Some ms" by (simp add: rgb_match.simps[of "c # t"])
    then have "rgb_occurs t" by (rule Cons.IH)
    then show ?thesis by (rule rgb_occurs_Cons)
  next
    case (Some m)
    obtain m1 m2 m3 where "m = (m1, m2, m3)" by (cases m) auto
    with Some show ?thesis by (simp add: rgb_match_here_occurs)
  qed
qed

lemma rgb_match_append_Some:
  "rgb_match_here t = Some m \<Longrightarrow> rgb_match (pre @ t) \<noteq> None"
proof (induction pre)
  case Nil
  then show ?case by (simp add: rgb_match.simps[of t])
next
  case (Cons c pre)
  then have "rgb_match (pre @ t) \<noteq> None" by blast
  then show ?case
    by (cases "rgb_match_here (c # pre @ t)") (simp_all add: rgb_match.simps[of "c # pre @ t"])
qed

lemma rgb_occurs_match:
  assumes "rgb_occurs s"
  shows "rgb_match s \<noteq> None"
proof -
  from assms obtain pre suf w1 w2 m1 w3 w4 m2 w5 w6 m3 w7 where
    h: "list_all is_space w1" "list_all is_space w2" "list_all is_space w3"
      "list_all is_space w4" "list_all is_space w5" "list_all is_space w6"
      "list_all is_space w7" "int_literal m1" "int_literal m2" "int_literal m3"
    and s: "s = pre @ rgb_text w1 w2 m1 w3 w4 m2 w5 w6 m3 w7 @ suf"
    unfolding rgb_occurs_def by (elim exE conjE)
  from rgb_match_here_text[OF h] show ?thesis
    unfolding s by (rule rgb_match_append_Some)
qed

lemma rgb_match_None_iff: "rgb_match s = None \<longleftrightarrow> \<not> rgb_occurs s"
  using rgb_occurs_match[of s] rgb_match_Some_occurs[of s] by (cases "rgb_match s") auto


lemma digits_no_space: "list_all is_digit ds \<Longrightarrow> dropWhile is_space ds = ds"
  by (cases ds) (auto simp: space_not_digit)

lemma takeWhile_all_digits: "list_all is_digit ds \<Longrightarrow> takeWhile is_digit ds = ds"
  by (simp add: list_all_iff)

lemma parseInt10_minus:
  "parseInt10 (45 # u) =
     (if takeWhile is_digit u = [] then None
      else Some (- int (digits_val (takeWhile is_digit u))))"
  by (simp add: parseInt10_def is_space_def)

lemma parseInt10_plain:
  "s \<noteq> [] \<Longrightarrow> \<not> is_space (hd s) \<Longrightarrow> hd s \<noteq> 45 \<Longrightarrow> hd s \<noteq> 43 \<Longrightarrow>
   parseInt10 s =
     (if takeWhile is_digit s = [] then None
      else Some (int (digits_val (takeWhile is_digit s))))"
  by (cases s) (simp_all add: parseInt10_def)

lemma parseInt10_literal:
  assumes "int_literal m"
  shows "parseInt10 m = Some (literal_value m)"
proof -
  from assms obtain ds where ds: "ds \<noteq> []" "list_all is_digit ds" "m = ds \<or> m = 45 # ds"
    by (auto simp: int_literal_cases)
  from ds(1,2) have "is_digit (hd ds)" by (cases ds) auto
  then have d: "hd ds \<noteq> 45" "hd ds \<noteq> 43" "\<not> is_space (hd ds)"
    by (auto simp: is_digit_def is_space_def)
  have lv: "literal_value ds = int (digits_val ds)"
    using ds(1) d(1) by (cases ds) (simp_all add: literal_value_def)
  from ds(3) show ?thesis
  proof
    assume "m = ds"
    then show ?thesis
      using parseInt10_plain[OF ds(1) d(3) d(1) d(2)] ds(1)
      by (simp add: takeWhile_all_digits[OF ds(2)] lv)
  next
    assume "m = 45 # ds"
    then show ?thesis
      using ds(1) by (simp add: parseInt10_minus takeWhile_all_digits[OF ds(2)] literal_value_def)
  qed
qed

lemma clamp_range: "0 \<le> clamp n \<and> clamp n \<le> 255"
  by (simp add: clamp_def)

lemma toString16_byte:
  assumes "n < 256"
  shows "padStart0 2 (toString16 n) = [hex_digit (n div 16), hex_digit (n mod 16)]"
proof (cases "n < 16")
  case True
  then show ?thesis
    by (simp add: toString16.simps[of n] padStart0_def hex_digit_def)
next
  case False
  with assms have "n div 16 < 16" by simp
  with False show ?thesis
    by (simp add: toString16.simps[of n] toString16.simps[of "n div 16"] padStart0_def)
qed

lemma channel_hex_literal:
  assumes "int_literal m"
  shows "channel_hex m = hex2 (clamp (literal_value m))"
proof -
  have "nat (clamp (literal_value m)) < 256" using clamp_range[of "literal_value m"] by linarith
  then show ?thesis
    by (simp add: channel_hex_def parseInt10_literal[OF assms] toString16_byte hex2_def)
qed

lemma rgb_match_text:
  assumes "list_all is_space w1" "list_all is_space w2" "list_all is_space w3"
    "list_all is_space w4" "list_all is_space w5" "list_all is_space w6" "list_all is_space w7"
    "int_literal m1" "int_literal m2" "int_literal m3"
  shows "rgb_match (rgb_text w1 w2 m1 w3 w4 m2 w5 w6 m3 w7 @ suf) = Some (m1, m2, m3)"
  by (subst rgb_match.simps) (simp add: rgb_match_here_text[OF assms])

lemma rgbToHex_text:
  assumes "list_all is_space w1" "list_all is_space w2" "list_all is_space w3"
    "list_all is_space w4" "list_all is_space w5" "list_all is_space w6" "list_all is_space w7"
    "int_literal m1" "int_literal m2" "int_literal m3"
  shows "rgbToHex (rgb_text w1 w2 m1 w3 w4 m2 w5 w6 m3 w7 @ suf) =
         js ''#'' @ hex2 (clamp (literal_value m1)) @ hex2 (clamp (literal_value m2)) @
         hex2 (clamp (literal_value m3))"
  using assms(8-10)
  by (simp add: rgbToHex_def rgb_match_text[OF assms] channel_hex_literal)





lemma digits_val_snoc: "digits_val (ds @ [c]) = 10 * digits_val ds + (c - 48)"
  by (simp add: digits_val_def)

lemma dec_digits_props:
  "list_all is_digit (dec_digits n) \<and> dec_digits n \<noteq> [] \<and> digits_val (dec_digits n) = n"
proof (induction n rule: dec_digits.induct)
  case (1 n)
  show ?case
  proof (cases "n < 10")
    case True
    then show ?thesis
      by (simp add: dec_digits.simps[of n] is_digit_def digits_val_def)
  next
    case False
    with 1 have ih: "list_all is_digit (dec_digits (n div 10))"
      "digits_val (dec_digits (n div 10)) = n div 10" by simp_all
    have "n mod 10 < 10" by simp
    then have "is_digit (48 + n mod 10)" unfolding is_digit_def by linarith
    with False ih show ?thesis
      by (simp add: dec_digits.simps[of n] digits_val_snoc)
  qed
qed

lemma num_to_string_literal: "int_literal (num_to_string n)"
proof -
  obtain k where k: "dec_digits k \<noteq> []" "list_all is_digit (dec_digits k)"
    "num_to_string n = dec_digits k \<or> num_to_string n = 45 # dec_digits k"
    using dec_digits_props[of "nat n"] dec_digits_props[of "nat (- n)"]
    by (cases "n < 0") (auto simp: num_to_string_def)
  then show ?thesis unfolding int_literal_cases by blast
qed

lemma num_to_string_value: "literal_value (num_to_string n) = n"
proof (cases "n < 0")
  case True
  then show ?thesis
    using dec_digits_props[of "nat (- n)"] by (simp add: num_to_string_def literal_value_def)
next
  case False
  from dec_digits_props[of "nat n"] obtain d ds where c: "dec_digits (nat n) = d # ds" "is_digit d"
    by (cases "dec_digits (nat n)") auto
  then have "d \<noteq> 45" by (auto simp: is_digit_def)
  with False c dec_digits_props[of "nat n"] show ?thesis
    by (simp add: num_to_string_def literal_value_def)
qed

lemma rgb_string_text:
  "rgb_string r g b =
     rgb_text [] [] (num_to_string r) [] [32] (num_to_string g) [] [32] (num_to_string b) [] @ []"
  by (simp add: rgb_string_def rgb_text_def js_def)

lemma hex_val_digit: "d < 16 \<Longrightarrow> hex_val (hex_digit d) = Some d"
  by (auto simp: hex_val_def hex_digit_def)

lemma parse_hex2_hex2:
  assumes "0 \<le> n" "n \<le> 255"
  shows "hex2 n = [a, b] \<Longrightarrow> parse_hex2 a b = Some n"
proof -
  assume h: "hex2 n = [a, b]"
  from assms have "nat n div 16 < 16" "nat n mod 16 < 16" by simp_all
  with h have "hex_val a = Some (nat n div 16)" "hex_val b = Some (nat n mod 16)"
    by (auto simp: hex2_def hex_val_digit)
  with assms show ?thesis by (simp add: parse_hex2_def)
qed


lemma rgb_match_literals:
  "rgb_match s = Some (m1, m2, m3) \<Longrightarrow> int_literal m1 \<and> int_literal m2 \<and> int_literal m3"
proof (induction s)
  case Nil
  then show ?case by (simp add: rgb_match.simps[of "[]"] rgb_match_here_def js_lits)
next
  case (Cons c t)
  show ?case
  proof (cases "rgb_match_here (c # t)")
    case None
    with Cons.prems have "rgb_match t = Some (m1, m2, m3)"
      by (simp add: rgb_match.simps[of "c # t"])
    then show ?thesis by (rule Cons.IH)
  next
    case (Some m)
    with Cons.prems have "rgb_match_here (c # t) = Some (m1, m2, m3)"
      by (simp add: rgb_match.simps[of "c # t"])
    from rgb_match_here_SomeD[OF this] show ?thesis by blast
  qed
qed

lemma hex_digit_chars:
  "d < 16 \<Longrightarrow> (48 \<le> hex_digit d \<and> hex_digit d \<le> 57) \<or> (97 \<le> hex_digit d \<and> hex_digit d \<le> 102)"
  unfolding hex_digit_def by (cases "d < 10") simp_all

lemma hex2_chars:
  assumes "0 \<le> n" "n \<le> 255" "c \<in> set (hex2 n)"
  shows "(48 \<le> c \<and> c \<le> 57) \<or> (97 \<le> c \<and> c \<le> 102)"
proof -
  from assms(1,2) have "nat n div 16 < 16" "nat n mod 16 < 16" by simp_all
  from hex_digit_chars[OF this(1)] hex_digit_chars[OF this(2)] assms(3) show ?thesis
    unfolding hex2_def by auto
qed

lemma rgbToHex_chars:
  assumes "c \<in> set (rgbToHex s)"
  shows "c = 35 \<or> (48 \<le> c \<and> c \<le> 57) \<or> (97 \<le> c \<and> c \<le> 102)"
proof (cases "rgb_match s")
  case None
  with assms show ?thesis by (auto simp: rgbToHex_def js_def)
next
  case (Some m)
  obtain m1 m2 m3 where m: "m = (m1, m2, m3)" by (cases m) auto
  from rgb_match_literals[OF Some[unfolded m]]
  have "channel_hex m1 = hex2 (clamp (literal_value m1))"
    "channel_hex m2 = hex2 (clamp (literal_value m2))"
    "channel_hex m3 = hex2 (clamp (literal_value m3))"
    by (simp_all add: channel_hex_literal)
  with assms Some m have "c = 35 \<or> c \<in> set (hex2 (clamp (literal_value m1))) \<or>
      c \<in> set (hex2 (clamp (literal_value m2))) \<or> c \<in> set (hex2 (clamp (literal_value m3)))"
    by (auto simp: rgbToHex_def js_def)
  then show ?thesis using hex2_chars clamp_range by blast
qed

lemma rgbToHex_length: "length (rgbToHex s) = 7"
proof (cases "rgb_match s")
  case None
  then show ?thesis by (simp add: rgbToHex_def js_def)
next
  case (Some m)
  obtain m1 m2 m3 where m: "m = (m1, m2, m3)" by (cases m) auto
  from rgb_match_literals[OF Some[unfolded m]] Some m show ?thesis
    by (simp add: rgbToHex_def channel_hex_literal hex2_def js_def)
qed

text \<open>
  C1. For integers \<open>r\<close>, \<open>g\<close>, \<open>b\<close> in \<open>[0, 255]\<close>, \<^verbatim>\<open>rgbToHex\<close> applied to the string
  \<^verbatim>\<open>rgb(r, g, b)\<close> gives a hex colour whose three two-digit channels, read back as
  hexadecimal numbers, are \<open>r\<close>, \<open>g\<close>, \<open>b\<close>.
\<close>

theorem rgbToHex_round_trip:
  assumes "0 \<le> r" "r \<le> 255" "0 \<le> g" "g \<le> 255" "0 \<le> b" "b \<le> 255"
  shows "parse_hex_color (rgbToHex (rgb_string r g b)) = Some (r, g, b)"
proof -
  have sp: "list_all is_space []" "list_all is_space [32]" by (simp_all add: is_space_def)
  have "rgbToHex (rgb_string r g b) = js ''#'' @ hex2 (clamp r) @ hex2 (clamp g) @ hex2 (clamp b)"
    unfolding rgb_string_text
    by (simp only: rgbToHex_text[OF sp(1) sp(1) sp(1) sp(2) sp(1) sp(2) sp(1)
          num_to_string_literal num_to_string_literal num_to_string_literal] num_to_string_value)
  moreover from assms have "clamp r = r" "clamp g = g" "clamp b = b" by (simp_all add: clamp_def)
  ultimately have e: "rgbToHex (rgb_string r g b) = 35 # hex2 r @ hex2 g @ hex2 b"
    by (simp add: js_def)
  obtain r1 r2 g1 g2 b1 b2 where h: "hex2 r = [r1, r2]" "hex2 g = [g1, g2]" "hex2 b = [b1, b2]"
    by (simp add: hex2_def)
  from parse_hex2_hex2[OF assms(1,2) h(1)] parse_hex2_hex2[OF assms(3,4) h(2)]
    parse_hex2_hex2[OF assms(5,6) h(3)]
  show ?thesis unfolding e h by (simp add: parse_hex_color_def)
qed

theorem rgbToHex_round_trip_witness:
  "(0::int) \<le> 91 \<and> (91::int) \<le> 255 \<and> (0::int) \<le> 155 \<and> (155::int) \<le> 255 \<and>
   (0::int) \<le> 213 \<and> (213::int) \<le> 255 \<and>
   parse_hex_color (rgbToHex (rgb_string 91 155 213)) = Some (91, 155, 213)"
  using rgbToHex_round_trip[of 91 155 213] by simp




text \<open>
  C3. When the pattern does not match (the regular expression, which is not anchored,
  finds no occurrence of it anywhere in the string), \<^verbatim>\<open>rgbToHex\<close> returns the sentinel
  \<^verbatim>\<open>#000000\<close> after writing its warning. \<^verbatim>\<open>rgbToHex\<close> has no failing branch: it is a
  total function from strings to strings. The witness is the input \<^verbatim>\<open>not-a-color\<close>.
\<close>

theorem rgbToHex_no_match_sentinel:
  assumes "\<not> rgb_occurs s"
  shows "rgbToHex s = js ''#000000'' \<and> rgbToHex_warns s"
proof -
  from assms have "rgb_match s = None" by (simp add: rgb_match_None_iff)
  then show ?thesis by (simp add: rgbToHex_def rgbToHex_warns_def)
qed

theorem rgbToHex_no_match_sentinel_witness:
  "\<not> rgb_occurs (js ''not-a-color'') \<and>
   rgbToHex (js ''not-a-color'') = js ''#000000'' \<and> rgbToHex_warns (js ''not-a-color'')"
proof -
  have "rgb_match (js ''not-a-color'') = None"
    by (simp add: js_def rgb_match.simps rgb_match_here_def)
  then have h: "\<not> rgb_occurs (js ''not-a-color'')"
    by (simp add: rgb_match_None_iff)
  from rgbToHex_no_match_sentinel[OF h] h show ?thesis by simp
qed

section \<open>The CSV parser: proofs\<close>

subsection \<open>The row scanner\<close>

lemma scan_row_plain:
  "44 \<notin> set t \<Longrightarrow> 34 \<notin> set t \<Longrightarrow>
   scan_row vs cur q (t @ rest) = scan_row vs (cur @ t) q rest"
  by (induction t arbitrary: cur) auto

lemma scan_row_in_quotes:
  "34 \<notin> set t \<Longrightarrow> scan_row vs cur True (t @ rest) = scan_row vs (cur @ t) True rest"
  by (induction t arbitrary: cur) auto

lemma scan_row_field:
  assumes "field_ok f"
  shows "scan_row vs cur False (field_text f @ rest) =
         scan_row vs (cur @ field_content f) False rest"
proof (cases f)
  case (Plain t)
  with assms show ?thesis by (simp add: scan_row_plain)
next
  case (Quoted t)
  with assms have "scan_row vs cur True (t @ 34 # rest) = scan_row vs (cur @ t) True (34 # rest)"
    by (simp add: scan_row_in_quotes)
  with Quoted show ?thesis by simp
qed

lemma scan_row_fields:
  "list_all field_ok (f # fs) \<Longrightarrow>
   scan_row vs [] False (join [44] (map field_text (f # fs))) =
   vs @ map (\<lambda>f. trim (field_content f)) (f # fs)"
proof (induction fs arbitrary: vs f)
  case Nil
  then have "scan_row vs [] False (field_text f @ []) = scan_row vs ([] @ field_content f) False []"
    by (intro scan_row_field) simp
  then show ?case by simp
next
  case (Cons g fs)
  from Cons.prems have f: "field_ok f" and r: "list_all field_ok (g # fs)" by simp_all
  have "scan_row vs [] False (field_text f @ 44 # join [44] (map field_text (g # fs))) =
        scan_row vs ([] @ field_content f) False (44 # join [44] (map field_text (g # fs)))"
    using f by (rule scan_row_field)
  also have "\<dots> = scan_row (vs @ [trim (field_content f)]) [] False (join [44] (map field_text (g # fs)))"
    by simp
  also have "\<dots> = (vs @ [trim (field_content f)]) @ map (\<lambda>f. trim (field_content f)) (g # fs)"
    using r by (rule Cons.IH)
  finally show ?case by simp
qed

text \<open>
  C4. A data row whose fields are plain or quoted, a quoted field holding any commas,
  is scanned into exactly one value per field; the value of a quoted field is its text
  between the quotes, commas included, trimmed like every value; where the row is a data
  line of the text, \<^verbatim>\<open>parseCSV\<close> returns the object built from these values. The witness
  is the row \<^verbatim>\<open>Language X,"rgb(1, 2, 3)",0.5\<close>, which gives three values.
\<close>

theorem parse_row_quoted_commas:
  assumes "flds \<noteq> []" "list_all field_ok flds"
  shows "parse_row (join [44] (map field_text flds)) = map (\<lambda>f. trim (field_content f)) flds \<and>
         length (parse_row (join [44] (map field_text flds))) = length flds \<and>
         (join [44] (map field_text flds) \<in> set (tl (csv_lines csv)) \<longrightarrow>
          row_object (csv_headers csv) (map (\<lambda>f. trim (field_content f)) flds)
            \<in> set (parseCSV csv))"
proof -
  from assms(1) obtain f fs where "flds = f # fs" by (cases flds) auto
  with assms(2) scan_row_fields[of f fs "[]"]
  have row: "parse_row (join [44] (map field_text flds)) = map (\<lambda>f. trim (field_content f)) flds"
    by (simp add: parse_row_def)
  have "row_object (csv_headers csv) (parse_row line) \<in> set (parseCSV csv)"
    if "line \<in> set (tl (csv_lines csv))" for line
    using that by (simp add: parseCSV_def)
  from this[of "join [44] (map field_text flds)"]
  have "join [44] (map field_text flds) \<in> set (tl (csv_lines csv)) \<longrightarrow>
      row_object (csv_headers csv) (map (\<lambda>f. trim (field_content f)) flds) \<in> set (parseCSV csv)"
    unfolding row by blast
  with row show ?thesis by simp
qed

theorem parse_row_quoted_commas_witness:
  \<open>join [44] (map field_text
     [Plain (js ''Language X''), Quoted (js ''rgb(1, 2, 3)''), Plain (js ''0.5'')]) =
     js ''Language X,"rgb(1, 2, 3)",0.5'' \<and>
   parse_row (js ''Language X,"rgb(1, 2, 3)",0.5'') =
     [js ''Language X'', js ''rgb(1, 2, 3)'', js ''0.5''] \<and>
   row_object [js ''a'', js ''b'', js ''c''] [js ''Language X'', js ''rgb(1, 2, 3)'', js ''0.5'']
     \<in> set (parseCSV (js ''a,b,c\<newline>Language X,"rgb(1, 2, 3)",0.5'')) \<and>
   row_object [js ''a'', js ''b'', js ''c''] [js ''Language X'', js ''rgb(1, 2, 3)'', js ''0.5'']
     (js ''b'') = Some (js ''rgb(1, 2, 3)'')\<close>
proof -
  let ?fs = "[Plain (js ''Language X''), Quoted (js ''rgb(1, 2, 3)''), Plain (js ''0.5'')]"
  let ?csv = \<open>js ''a,b,c\<newline>Language X,"rgb(1, 2, 3)",0.5''\<close>
  have ok: "list_all field_ok ?fs" by (simp add: js_def)
  have ne: "?fs \<noteq> []" by simp
  have row: \<open>join [44] (map field_text ?fs) = js ''Language X,"rgb(1, 2, 3)",0.5''\<close>
    by (simp add: js_def)
  have tr: "map (\<lambda>f. trim (field_content f)) ?fs =
      [js ''Language X'', js ''rgb(1, 2, 3)'', js ''0.5'']"
    by (simp add: trim_def js_def is_space_def)
  have ls: \<open>csv_lines ?csv = [js ''a,b,c'', js ''Language X,"rgb(1, 2, 3)",0.5'']\<close>
    by (simp add: csv_lines_def trim_def js_def is_space_def)
  have hs: "csv_headers ?csv = [js ''a'', js ''b'', js ''c'']"
    unfolding csv_headers_def ls by (simp add: trim_def js_def is_space_def)
  have mem: "join [44] (map field_text ?fs) \<in> set (tl (csv_lines ?csv))"
    unfolding row ls by simp
  have look: "row_object [js ''a'', js ''b'', js ''c'']
      [js ''Language X'', js ''rgb(1, 2, 3)'', js ''0.5''] (js ''b'') = Some (js ''rgb(1, 2, 3)'')"
    by (simp add: row_object_def set_property_def value_or_empty_def js_def)
  from parse_row_quoted_commas[OF ne ok, of ?csv] mem
  have "parse_row (join [44] (map field_text ?fs)) = map (\<lambda>f. trim (field_content f)) ?fs"
    and "row_object (csv_headers ?csv) (map (\<lambda>f. trim (field_content f)) ?fs)
      \<in> set (parseCSV ?csv)"
    by blast+
  then show ?thesis unfolding row tr hs using look by simp
qed

lemma set_trim: "set (trim s) \<subseteq> set s"
  by (auto simp: trim_def dest!: set_dropWhileD)

lemma scan_row_no_quote:
  "(\<forall>v \<in> set vs. 34 \<notin> set v) \<Longrightarrow> 34 \<notin> set cur \<Longrightarrow>
   \<forall>v \<in> set (scan_row vs cur q s). 34 \<notin> set v"
proof (induction s arbitrary: vs cur q)
  case Nil
  then show ?case using set_trim[of cur] by auto
next
  case (Cons c s)
  show ?case
  proof (cases "c = 34")
    case True
    with Cons.IH[OF Cons.prems] show ?thesis by simp
  next
    case False
    show ?thesis
    proof (cases "c = 44 \<and> \<not> q")
      case True
      from Cons.prems set_trim[of cur] have "\<forall>v \<in> set (vs @ [trim cur]). 34 \<notin> set v" by auto
      from Cons.IH[OF this, of "[]" q] True False show ?thesis by simp
    next
      case F2: False
      from Cons.prems(2) False have "34 \<notin> set (cur @ [c])" by simp
      from Cons.IH[OF Cons.prems(1) this, of q] False F2 show ?thesis by auto
    qed
  qed
qed

lemma parse_row_no_quote: "v \<in> set (parse_row line) \<Longrightarrow> 34 \<notin> set v"
  using scan_row_no_quote[of "[]" "[]" False line] by (simp add: parse_row_def)

lemma value_or_empty_no_quote:
  "(\<forall>v \<in> set values. 34 \<notin> set v) \<Longrightarrow> 34 \<notin> set (value_or_empty values i)"
  by (simp add: value_or_empty_def)

lemma fill_object_no_quote:
  "(\<forall>v \<in> set values. 34 \<notin> set v) \<Longrightarrow> (\<forall>k v. obj k = Some v \<longrightarrow> 34 \<notin> set v) \<Longrightarrow>
   fill_object headers values i obj k = Some v \<Longrightarrow> 34 \<notin> set v"
proof (induction headers arbitrary: i obj)
  case Nil
  then show ?case by simp
next
  case (Cons h hs)
  have "\<forall>k v. set_property obj h (value_or_empty values i) k = Some v \<longrightarrow> 34 \<notin> set v"
    using Cons.prems(1,2) value_or_empty_no_quote[of "values" i]
    by (auto simp: set_property_def split: if_splits)
  from Cons.IH[OF Cons.prems(1) this] Cons.prems(3) show ?case by simp
qed

text \<open>
  C10. No value of an object returned by \<^verbatim>\<open>parseCSV\<close> contains a double quote: the
  scanner never appends the quote character to \<^verbatim>\<open>current\<close>. In the witness the field
  \<^verbatim>\<open>"a""b"\<close>, with a doubled quote, is read as \<^verbatim>\<open>ab\<close>.
\<close>

theorem parseCSV_values_without_quotes:
  "\<forall>obj \<in> set (parseCSV csv). \<forall>k v. obj k = Some v \<longrightarrow> 34 \<notin> set v"
proof (intro ballI allI impI)
  fix obj k v
  assume "obj \<in> set (parseCSV csv)" and kv: "obj k = Some v"
  then obtain line where obj: "obj = row_object (csv_headers csv) (parse_row line)"
    by (auto simp: parseCSV_def)
  have "\<forall>v \<in> set (parse_row line). 34 \<notin> set v" using parse_row_no_quote by blast
  from fill_object_no_quote[OF this, of Map.empty "csv_headers csv" 0 k v] kv obj
  show "34 \<notin> set v" by (simp add: row_object_def)
qed


theorem parseCSV_values_without_quotes_witness:
  \<open>parseCSV (js ''n\<newline>"a""b"'') = [row_object [js ''n''] [js ''ab'']] \<and>
   row_object [js ''n''] [js ''ab''] \<in> set (parseCSV (js ''n\<newline>"a""b"'')) \<and>
   row_object [js ''n''] [js ''ab''] (js ''n'') = Some (js ''ab'') \<and>
   34 \<notin> set (js ''ab'')\<close>
proof -
  let ?csv = \<open>js ''n\<newline>"a""b"''\<close>
  let ?obj = "row_object [js ''n''] [js ''ab'']"
  have e: "parseCSV ?csv = [?obj]"
    by (simp add: parseCSV_def csv_headers_def csv_lines_def parse_row_def trim_def js_def
        is_space_def)
  have m: "?obj \<in> set (parseCSV ?csv)" by (simp only: e list.set_intros)
  have l: "?obj (js ''n'') = Some (js ''ab'')"
    by (simp add: row_object_def set_property_def value_or_empty_def js_def)
  from parseCSV_values_without_quotes[of ?csv] m l have "34 \<notin> set (js ''ab'')" by blast
  with e m l show ?thesis by blast
qed

subsection \<open>The header row\<close>

lemma split_on_nonempty: "split_on c s \<noteq> []"
  by (induction s) (auto split: list.splits)

lemma split_on_plain: "c \<notin> set l \<Longrightarrow> split_on c l = [l]"
  by (induction l) auto

lemma split_on_append:
  "c \<notin> set l \<Longrightarrow> split_on c (l @ c # rest) = l # split_on c rest"
  by (induction l) auto

lemma hd_split_on:
  assumes "c \<notin> set l" "rest = [] \<or> hd rest = c"
  shows "hd (split_on c (l @ rest)) = l"
proof (cases rest)
  case Nil
  with assms(1) show ?thesis by (simp add: split_on_plain)
next
  case (Cons d r)
  with assms show ?thesis by (simp add: split_on_append)
qed

lemma split_on_join:
  "\<forall>n \<in> set (n0 # ns). c \<notin> set n \<Longrightarrow> split_on c (join [c] (n0 # ns)) = n0 # ns"
proof (induction ns arbitrary: n0)
  case Nil
  then show ?case by (simp add: split_on_plain)
next
  case (Cons n1 ns)
  then have "split_on c (join [c] (n1 # ns)) = n1 # ns" by simp
  with Cons.prems show ?case by (simp add: split_on_append)
qed

lemma notin_join:
  "\<forall>n \<in> set ns. d \<notin> set n \<Longrightarrow> d \<noteq> c \<Longrightarrow> d \<notin> set (join [c] ns)"
  by (induction "[c]" ns rule: join.induct) auto

text \<open>
  C5, as amended. \<^verbatim>\<open>parseCSV\<close> obtains the field names by splitting the first line of
  the trimmed text on every comma and trimming each piece: a comma inside a quoted header
  field splits too, and the quote characters stay in the names. (As stated, with commas
  inside quoted header fields not delimiting, the claim fails on the header row
  \<^verbatim>\<open>"a,b",c\<close>, shown after the witness.)
\<close>

theorem csv_headers_split_every_comma:
  assumes "names \<noteq> []" "\<forall>n \<in> set names. 44 \<notin> set n \<and> 10 \<notin> set n"
    and "trim csv = join [44] names @ rest" "rest = [] \<or> hd rest = 10"
  shows "csv_headers csv = map trim names"
proof -
  from assms(2) have "10 \<notin> set (join [44] names)" by (intro notin_join) auto
  with assms(3,4) have l: "hd (csv_lines csv) = join [44] names"
    by (simp add: csv_lines_def hd_split_on)
  from assms(1) obtain n0 ns where ns: "names = n0 # ns" by (cases names) auto
  with assms(2) have "split_on 44 (join [44] names) = names"
    using split_on_join[of n0 ns 44] by simp
  with l show ?thesis by (simp add: csv_headers_def)
qed

theorem csv_headers_split_every_comma_witness:
  \<open>[js ''"a'', js '' b"'', js ''c''] \<noteq> [] \<and>
   trim (js ''"a, b",c\<newline>1,2,3\<newline>'') =
     join [44] [js ''"a'', js '' b"'', js ''c''] @ js ''\<newline>1,2,3'' \<and>
   hd (js ''\<newline>1,2,3'') = 10 \<and>
   csv_headers (js ''"a, b",c\<newline>1,2,3\<newline>'') = [js ''"a'', js ''b"'', js ''c'']\<close>
proof -
  let ?ns = \<open>[js ''"a'', js '' b"'', js ''c'']\<close>
  have a: "?ns \<noteq> []" by simp
  have b: "\<forall>n \<in> set ?ns. 44 \<notin> set n \<and> 10 \<notin> set n" by (simp add: js_def)
  have c: \<open>trim (js ''"a, b",c\<newline>1,2,3\<newline>'') = join [44] ?ns @ js ''\<newline>1,2,3''\<close>
    by (simp add: trim_def js_def is_space_def)
  have d: \<open>js ''\<newline>1,2,3'' = [] \<or> hd (js ''\<newline>1,2,3'') = 10\<close> by (simp add: js_def)
  have t: \<open>map trim ?ns = [js ''"a'', js ''b"'', js ''c'']\<close>
    by (simp add: trim_def js_def is_space_def)
  from csv_headers_split_every_comma[OF a b c d] a b c d t show ?thesis by (simp add: js_def)
qed

text \<open>
  The header row \<^verbatim>\<open>"a,b",c\<close>: splitting on unquoted commas gives two names, the code
  gives three.
\<close>

theorem csv_headers_quoted_comma_counterexample:
  \<open>csv_headers (js ''"a,b",c\<newline>1,2'') = [js ''"a'', js ''b"'', js ''c''] \<and>
   spec_headers (js ''"a,b",c\<newline>1,2'') = [js ''"a,b"'', js ''c''] \<and>
   csv_headers (js ''"a,b",c\<newline>1,2'') \<noteq> spec_headers (js ''"a,b",c\<newline>1,2'')\<close>
  by (simp add: csv_headers_def spec_headers_def csv_lines_def trim_def js_def is_space_def)


section \<open>Grouping: proofs\<close>

lemma map_of_map_set: "map_of (map_set m k v) = (map_of m)(k \<mapsto> v)"
  by (induction m) (auto simp: fun_eq_iff)

lemma map_get_after_set: "map_get (map_set m k v) k = Some v"
  by (simp add: map_get_def map_of_map_set)

lemma group_push_key_present:
  "map_get (if \<not> map_has grouped key then map_set grouped key [] else grouped) key \<noteq> None"
  by (simp add: map_has_def map_get_def map_of_map_set)

lemma map_set_new:
  "key \<notin> set keys \<Longrightarrow>
   map_set (map (\<lambda>k. (k, F k)) keys) key v = map (\<lambda>k. (k, F k)) keys @ [(key, v)]"
  by (induction keys) auto

lemma map_set_old:
  "key \<in> set keys \<Longrightarrow> distinct keys \<Longrightarrow>
   map_set (map (\<lambda>k. (k, F k)) keys) key v =
   map (\<lambda>k. (k, if k = key then v else F k)) keys"
  by (induction keys) auto

lemma map_of_keys:
  "map_of (map (\<lambda>k. (k, F k)) keys) key = (if key \<in> set keys then Some (F key) else None)"
  by (induction keys) auto

lemma group_push_old:
  assumes "language c \<in> set keys" "distinct keys"
  shows "group_push language (map (\<lambda>k. (k, F k)) keys) c =
         map (\<lambda>k. (k, if k = language c then F k @ [c] else F k)) keys"
  using assms
  by (simp add: group_push_def map_has_def map_get_def map_of_keys map_set_old Let_def
      cong: map_cong)

lemma group_push_new:
  assumes "language c \<notin> set keys"
  shows "group_push language (map (\<lambda>k. (k, F k)) keys) c =
         map (\<lambda>k. (k, F k)) keys @ [(language c, [c])]"
proof -
  let ?g = "map (\<lambda>k. (k, F k)) keys"
  let ?k = "language c"
  have a: "map_set ?g ?k [] = ?g @ [(?k, [])]" using assms by (rule map_set_new)
  have b: "map_get (?g @ [(?k, [])]) ?k = Some []"
    using assms by (simp add: map_get_def map_of_keys map_add_def)
  have c: "map_set (?g @ [(?k, [])]) ?k [c] = ?g @ [(?k, [c])]"
    using assms by (induction keys) auto
  show ?thesis
    using assms by (simp add: group_push_def map_has_def map_of_keys a b c)
qed

lemma first_seen_snoc:
  "first_seen (ks @ [k]) = (if k \<in> set ks then first_seen ks else first_seen ks @ [k])"
  by (simp add: first_seen_def)

lemma set_first_seen: "set (first_seen ks) = set ks"
  by (simp add: first_seen_def)

lemma distinct_first_seen: "distinct (first_seen ks)"
  by (simp add: first_seen_def)

lemma groupByLanguage_eq:
  "groupByLanguage colors =
   map (\<lambda>k. (k, records_of k colors)) (first_seen (map language_of colors))"
proof (induction colors rule: rev_induct)
  case Nil
  then show ?case by (simp add: groupByLanguage_def first_seen_def)
next
  case (snoc c cs)
  let ?keys = "first_seen (map language_of cs)"
  have step: "groupByLanguage (cs @ [c]) = group_push language_of (groupByLanguage cs) c"
    by (simp add: groupByLanguage_def)
  show ?case
  proof (cases "language_of c \<in> set (map language_of cs)")
    case True
    then have "language_of c \<in> set ?keys" by (simp add: set_first_seen)
    from group_push_old[of language_of c ?keys "\<lambda>k. records_of k cs", OF this distinct_first_seen] True
    show ?thesis
      unfolding step snoc.IH
      by (simp add: first_seen_snoc records_of_def cong: map_cong)
  next
    case False
    then have n: "language_of c \<notin> set ?keys" by (simp add: set_first_seen)
    have "language_of x \<noteq> language_of c" if "x \<in> set cs" for x
    proof
      assume eq: "language_of x = language_of c"
      from that have "language_of x \<in> language_of ` set cs" by (rule imageI)
      then have "language_of c \<in> set (map language_of cs)" unfolding eq by simp
      with False show False by contradiction
    qed
    then have e: "records_of (language_of c) cs = []"
      by (simp add: records_of_def filter_empty_conv)
    have r1: "records_of (language_of c) (cs @ [c]) = [c]"
      using e by (simp add: records_of_def)
    have o: "map (\<lambda>k. (k, records_of k (cs @ [c]))) ?keys = map (\<lambda>k. (k, records_of k cs)) ?keys"
      using n by (intro map_cong) (auto simp: records_of_def)
    from False have fs: "first_seen (map language_of (cs @ [c])) = ?keys @ [language_of c]"
      by (simp add: first_seen_snoc)
    show ?thesis
      unfolding step snoc.IH group_push_new[of language_of c ?keys "\<lambda>k. records_of k cs", OF n] fs
      by (simp add: r1 o)
  qed
qed


text \<open>
  C6. \<^verbatim>\<open>groupByLanguage\<close> partitions the records by their key, the short language code
  when it is not empty and the full language name otherwise: under each key that occurs
  the map holds exactly the input records with that key, in the order of the input; no
  other key is in the map, no key is there twice, and the keys stand in the order of their
  first occurrence. In the witness the languages are en, fr, en: the group of en holds the
  first and the third record, in this order.
\<close>

theorem groupByLanguage_partition:
  "map_get (groupByLanguage colors) k =
     (if k \<in> language_of ` set colors
      then Some (filter (\<lambda>color. language_of color = k) colors) else None) \<and>
   map fst (groupByLanguage colors) = first_seen (map language_of colors) \<and>
   distinct (map fst (groupByLanguage colors)) \<and>
   language_of color = (if lang_abv color \<noteq> [] then lang_abv color else lang color)"
proof -
  have "map_get (groupByLanguage colors) k =
     (if k \<in> language_of ` set colors then Some (records_of k colors) else None)"
    by (simp add: groupByLanguage_eq map_get_def map_of_keys set_first_seen)
  moreover have "map fst (groupByLanguage colors) = first_seen (map language_of colors)"
    by (simp add: groupByLanguage_eq comp_def)
  ultimately show ?thesis
    by (simp add: records_of_def distinct_first_seen language_of_def)
qed

theorem groupByLanguage_partition_witness:
  "groupByLanguage
     [\<lparr>lang = js ''English'', lang_abv = js ''en'', simplifiedName = js ''a'', commonName = [],
       avgColorRGBCode = [], totalColorFraction = [], avgL = [], avgA = [], avgB = []\<rparr>,
      \<lparr>lang = js ''French'', lang_abv = js ''fr'', simplifiedName = js ''b'', commonName = [],
       avgColorRGBCode = [], totalColorFraction = [], avgL = [], avgA = [], avgB = []\<rparr>,
      \<lparr>lang = js ''English'', lang_abv = js ''en'', simplifiedName = js ''c'', commonName = [],
       avgColorRGBCode = [], totalColorFraction = [], avgL = [], avgA = [], avgB = []\<rparr>] =
   [(js ''en'',
     [\<lparr>lang = js ''English'', lang_abv = js ''en'', simplifiedName = js ''a'', commonName = [],
       avgColorRGBCode = [], totalColorFraction = [], avgL = [], avgA = [], avgB = []\<rparr>,
      \<lparr>lang = js ''English'', lang_abv = js ''en'', simplifiedName = js ''c'', commonName = [],
       avgColorRGBCode = [], totalColorFraction = [], avgL = [], avgA = [], avgB = []\<rparr>]),
    (js ''fr'',
     [\<lparr>lang = js ''French'', lang_abv = js ''fr'', simplifiedName = js ''b'', commonName = [],
       avgColorRGBCode = [], totalColorFraction = [], avgL = [], avgA = [], avgB = []\<rparr>])]"
  (is "groupByLanguage ?cs = [(?en, ?g1), (?fr, ?g2)]")
proof -
  have keys: "map fst (groupByLanguage ?cs) = [?en, ?fr]"
    using groupByLanguage_partition[of ?cs]
    by (simp add: first_seen_def language_of_def js_def)
  have en: "map_get (groupByLanguage ?cs) ?en = Some ?g1"
    using groupByLanguage_partition[of ?cs ?en]
    by (simp add: language_of_def js_def)
  have fr: "map_get (groupByLanguage ?cs) ?fr = Some ?g2"
    using groupByLanguage_partition[of ?cs ?fr]
    by (simp add: language_of_def js_def)
  from keys obtain v1 v2 where g: "groupByLanguage ?cs = [(?en, v1), (?fr, v2)]"
    by (auto simp: map_eq_Cons_conv)
  from en fr show ?thesis unfolding g by (simp add: map_get_def js_def)
qed

section \<open>The end-to-end scenario: proofs\<close>

lemma scenario_lines:
  \<open>csv_lines scenario_csv =
     [js ''lang,lang_abv,simplifiedName,commonName,avgColorRGBCode,totalColorFraction,avgL,avgA,avgB'',
      js ''Spanish,es,claro,light blue,"rgb(91, 155, 213)",0.02,70,1,-30'']\<close>
  by (simp add: csv_lines_def scenario_csv_def trim_def js_def is_space_def)

lemma scenario_headers:
  "csv_headers scenario_csv =
     [js ''lang'', js ''lang_abv'', js ''simplifiedName'', js ''commonName'',
      js ''avgColorRGBCode'', js ''totalColorFraction'', js ''avgL'', js ''avgA'', js ''avgB'']"
  unfolding csv_headers_def scenario_lines
  by (simp add: trim_def js_def is_space_def)

lemma scenario_values:
  \<open>parse_row (js ''Spanish,es,claro,light blue,"rgb(91, 155, 213)",0.02,70,1,-30'') =
     [js ''Spanish'', js ''es'', js ''claro'', js ''light blue'', js ''rgb(91, 155, 213)'',
      js ''0.02'', js ''70'', js ''1'', js ''-30'']\<close>
  by (simp add: parse_row_def trim_def js_def is_space_def)

lemma scenario_objects:
  "parseCSV scenario_csv =
     [row_object
        [js ''lang'', js ''lang_abv'', js ''simplifiedName'', js ''commonName'',
         js ''avgColorRGBCode'', js ''totalColorFraction'', js ''avgL'', js ''avgA'', js ''avgB'']
        [js ''Spanish'', js ''es'', js ''claro'', js ''light blue'', js ''rgb(91, 155, 213)'',
         js ''0.02'', js ''70'', js ''1'', js ''-30'']]"
  unfolding parseCSV_def scenario_headers scenario_lines
  by (simp add: scenario_values)

lemma scenario_typed:
  "map to_ColorInfo (parseCSV scenario_csv) = [scenario_record]"
  unfolding scenario_objects
  by (simp add: to_ColorInfo_def property_or_empty_def row_object_def set_property_def
      value_or_empty_def scenario_record_def js_def)

lemma scenario_readable:
  "list_all readable (parseCSV scenario_csv)"
  unfolding scenario_objects
  by (simp add: readable_def property_or_empty_def row_object_def set_property_def
      value_or_empty_def js_def)

lemma scenario_language:
  "map raw_language (parseCSV scenario_csv) = [Some (js ''es'')]"
  unfolding scenario_objects
  by (simp add: raw_language_def row_object_def set_property_def value_or_empty_def js_def)

lemma group_push_first: "group_push language [] c = [(language c, [c])]"
  by (simp add: group_push_def map_has_def map_get_def)

lemma scenario_groups:
  "\<exists>obj. parseCSV scenario_csv = [obj] \<and>
         groupByLanguage_objects (parseCSV scenario_csv) = [(Some (js ''es''), [obj])]"
proof -
  obtain obj where o: "parseCSV scenario_csv = [obj]"
    using scenario_objects by blast
  with scenario_language have "raw_language obj = Some (js ''es'')" by simp
  then have "groupByLanguage_objects [obj] = [(Some (js ''es''), [obj])]"
    by (simp add: groupByLanguage_objects_def group_push_first)
  with o show ?thesis by simp
qed

lemma scenario_basename:
  "getLanguageBasename unicode_lower (js ''es'') [scenario_record] = js ''es-spanish''"
  by (simp add: getLanguageBasename_def scenario_record_def trim_def toLowerCase_def
      hyphenate_def js_def is_space_def)

lemma scenario_hex: "rgbToHex (js ''rgb(91, 155, 213)'') = js ''#5b9bd5''"
  by (simp add: rgbToHex_def js_def rgb_match.simps rgb_match_here_def skip_ws_def
      match_int_def is_space_def is_digit_def channel_hex_def parseInt10_def digits_val_def
      clamp_def padStart0_def toString16.simps hex_digit_def)

lemma scenario_entries:
  "colorArray [scenario_record] = [\<lparr>name = js ''light blue'', hex = js ''#5b9bd5''\<rparr>]"
  using scenario_hex by (simp add: colorArray_def entry_name_def scenario_record_def js_def)

lemma scenario_json_text:
  \<open>JSON_stringify [\<lparr>name = js ''light blue'', hex = js ''#5b9bd5''\<rparr>] =
     js ''[\<newline>  {\<newline>    "name": "light blue",\<newline>    "hex": "#5b9bd5"\<newline>  }\<newline>]''\<close>
  by (simp add: JSON_stringify_def json_object_def json_quote_def js_def
      is_lead_surrogate_def is_trail_surrogate_def)

lemma scenario_csv_text:
  \<open>generateCSV [scenario_record] = js ''name,hex\<newline>light blue,#5b9bd5''\<close>
  using scenario_hex
  by (simp add: generateCSV_def csv_rows_def csv_row_def escape_name_def entry_name_def
      scenario_record_def js_def)

lemma js_append: "js a @ js b = js (a @ b)"
  by (simp add: js_def)

lemma scenario_files:
  \<open>language_files unicode_lower (js ''es'', [scenario_record]) =
     [(DATA_DIR, js ''es-spanish.csv'', js ''name,hex\<newline>light blue,#5b9bd5''),
      (JSON_DIR, js ''es-spanish.json'',
       JSON_stringify [\<lparr>name = js ''light blue'', hex = js ''#5b9bd5''\<rparr>]),
      (SVG_DIR, js ''es-spanish.svg'', generateSVG [scenario_record] (js ''es''))]\<close>
  unfolding language_files_def prod.case Let_def scenario_basename generateJSON_def
    scenario_entries scenario_csv_text js_append
  by simp

text \<open>
  C9. On the input made of the header row and the single data row
  \<^verbatim>\<open>Spanish,es,claro,light blue,"rgb(91, 155, 213)",0.02,70,1,-30\<close> the script runs to
  its end and writes three files with the basename \<^verbatim>\<open>es-spanish\<close> and no other file,
  whatever the case tables of Unicode are; the JSON file \<^verbatim>\<open>es-spanish.json\<close> holds the
  serialisation of exactly one entry, with the name \<^verbatim>\<open>light blue\<close> and the hex colour
  \<^verbatim>\<open>#5b9bd5\<close>, printed with an indentation of two spaces.
\<close>

theorem scenario_writes_es_spanish_json:
  \<open>main_writes unicode_lower scenario_csv =
     ([(DATA_DIR, js ''es-spanish.csv'', js ''name,hex\<newline>light blue,#5b9bd5''),
       (JSON_DIR, js ''es-spanish.json'',
        JSON_stringify [\<lparr>name = js ''light blue'', hex = js ''#5b9bd5''\<rparr>]),
       (SVG_DIR, js ''es-spanish.svg'', generateSVG [scenario_record] (js ''es''))],
      Completed) \<and>
   JSON_stringify [\<lparr>name = js ''light blue'', hex = js ''#5b9bd5''\<rparr>] =
     js ''[\<newline>  {\<newline>    "name": "light blue",\<newline>    "hex": "#5b9bd5"\<newline>  }\<newline>]''\<close>
proof -
  from scenario_groups obtain obj where
    o: "parseCSV scenario_csv = [obj]" and
    g: "groupByLanguage_objects (parseCSV scenario_csv) = [(Some (js ''es''), [obj])]"
    by blast
  from scenario_typed scenario_readable
  have t: "to_ColorInfo obj = scenario_record" and r: "readable obj"
    unfolding o by simp_all
  have "main_writes unicode_lower scenario_csv =
          (language_files unicode_lower (js ''es'', [scenario_record]), Completed)"
    unfolding main_writes_def g by (simp add: t r)
  then show ?thesis
    unfolding scenario_files by (simp add: scenario_json_text)
qed


section \<open>Runs of the script on other header rows: proofs\<close>

text \<open>
  With the four columns the run completes and writes the three files of the scenario.
  With the row without a name it writes the files of the first language and stops with
  the \<^verbatim>\<open>TypeError\<close> of the second; without the colour column it stops before the first
  file.
\<close>

lemma four_column_objects:
  "parseCSV four_column_csv =
     [row_object [js ''lang_abv'', js ''lang'', js ''commonName'', js ''avgColorRGBCode'']
        [js ''es'', js ''Spanish'', js ''light blue'', js ''rgb(91, 155, 213)'']]"
  by (simp add: parseCSV_def csv_headers_def csv_lines_def four_column_csv_def parse_row_def
      trim_def js_def is_space_def)

lemma no_colour_objects:
  "parseCSV no_colour_csv =
     [row_object [js ''lang'', js ''lang_abv'', js ''commonName'']
        [js ''Spanish'', js ''es'', js ''light blue'']]"
  by (simp add: parseCSV_def csv_headers_def csv_lines_def no_colour_csv_def parse_row_def
      trim_def js_def is_space_def)

lemma write_one_group:
  assumes "raw_language obj = Some langAbv" "readable obj"
  shows "write_groups unicode_lower (groupByLanguage_objects [obj]) =
         (language_files unicode_lower (langAbv, [to_ColorInfo obj]), Completed)"
  using assms by (simp add: groupByLanguage_objects_def group_push_first)

lemma write_unreadable_group:
  assumes "raw_language obj = Some langAbv" "\<not> readable obj"
  shows "write_groups unicode_lower (groupByLanguage_objects [obj]) = ([], TypeError)"
  using assms by (simp add: groupByLanguage_objects_def group_push_first)

lemma four_column_files:
  \<open>language_files unicode_lower (js ''es'', [four_column_record]) =
     [(DATA_DIR, js ''es-spanish.csv'', js ''name,hex\<newline>light blue,#5b9bd5''),
      (JSON_DIR, js ''es-spanish.json'',
       JSON_stringify [\<lparr>name = js ''light blue'', hex = js ''#5b9bd5''\<rparr>]),
      (SVG_DIR, js ''es-spanish.svg'', generateSVG [four_column_record] (js ''es''))]\<close>
proof -
  have b: "getLanguageBasename unicode_lower (js ''es'') [four_column_record] = js ''es-spanish''"
    by (simp add: getLanguageBasename_def four_column_record_def trim_def toLowerCase_def
        hyphenate_def js_def is_space_def)
  have e: "colorArray [four_column_record] = [\<lparr>name = js ''light blue'', hex = js ''#5b9bd5''\<rparr>]"
    using scenario_hex by (simp add: colorArray_def entry_name_def four_column_record_def js_def)
  have c: \<open>generateCSV [four_column_record] = js ''name,hex\<newline>light blue,#5b9bd5''\<close>
    using scenario_hex
    by (simp add: generateCSV_def csv_rows_def csv_row_def escape_name_def entry_name_def
        four_column_record_def js_def)
  show ?thesis
    unfolding language_files_def prod.case Let_def b generateJSON_def e c js_append by simp
qed

lemma four_column_run:
  \<open>main_writes unicode_lower four_column_csv =
     ([(DATA_DIR, js ''es-spanish.csv'', js ''name,hex\<newline>light blue,#5b9bd5''),
       (JSON_DIR, js ''es-spanish.json'',
        JSON_stringify [\<lparr>name = js ''light blue'', hex = js ''#5b9bd5''\<rparr>]),
       (SVG_DIR, js ''es-spanish.svg'', generateSVG [four_column_record] (js ''es''))],
      Completed)\<close>
proof -
  let ?obj = "row_object [js ''lang_abv'', js ''lang'', js ''commonName'', js ''avgColorRGBCode'']
        [js ''es'', js ''Spanish'', js ''light blue'', js ''rgb(91, 155, 213)'']"
  have l: "raw_language ?obj = Some (js ''es'')"
    by (simp add: raw_language_def row_object_def set_property_def value_or_empty_def js_def)
  have r: "readable ?obj"
    by (simp add: readable_def property_or_empty_def row_object_def set_property_def
        value_or_empty_def js_def)
  have t: "to_ColorInfo ?obj = four_column_record"
    by (simp add: to_ColorInfo_def property_or_empty_def row_object_def set_property_def
        value_or_empty_def four_column_record_def js_def)
  show ?thesis
    unfolding main_writes_def four_column_objects write_one_group[OF l r] t four_column_files ..
qed

lemma no_colour_run:
  "main_writes unicode_lower no_colour_csv = ([], TypeError)"
proof -
  let ?obj = "row_object [js ''lang'', js ''lang_abv'', js ''commonName'']
        [js ''Spanish'', js ''es'', js ''light blue'']"
  have l: "raw_language ?obj = Some (js ''es'')"
    by (simp add: raw_language_def row_object_def set_property_def value_or_empty_def js_def)
  have r: "\<not> readable ?obj"
    by (simp add: readable_def property_or_empty_def row_object_def set_property_def
        value_or_empty_def js_def)
  show ?thesis
    unfolding main_writes_def no_colour_objects write_unreadable_group[OF l r] ..
qed


lemma stopped_objects:
  "parseCSV stopped_csv =
     [row_object [js ''lang_abv'', js ''lang'', js ''commonName'', js ''avgColorRGBCode'']
        [js ''es'', js ''Spanish'', js ''light blue'', js ''rgb(91, 155, 213)''],
      row_object [js ''lang_abv'', js ''lang'', js ''commonName'', js ''avgColorRGBCode'']
        [js ''fr'', js ''French'', [], js ''rgb(1, 2, 3)'']]"
  by (simp add: parseCSV_def csv_headers_def csv_lines_def stopped_csv_def parse_row_def
      trim_def js_def is_space_def)

lemma write_two_groups:
  assumes "raw_language obj1 = Some k1" "raw_language obj2 = Some k2" "k1 \<noteq> k2"
    and "readable obj1" "\<not> readable obj2"
  shows "write_groups unicode_lower (groupByLanguage_objects [obj1, obj2]) =
         (language_files unicode_lower (k1, [to_ColorInfo obj1]), TypeError)"
  using assms
  by (simp add: groupByLanguage_objects_def group_push_first)
     (simp add: group_push_def map_has_def map_get_def)

lemma stopped_run:
  \<open>main_writes unicode_lower stopped_csv =
     ([(DATA_DIR, js ''es-spanish.csv'', js ''name,hex\<newline>light blue,#5b9bd5''),
       (JSON_DIR, js ''es-spanish.json'',
        JSON_stringify [\<lparr>name = js ''light blue'', hex = js ''#5b9bd5''\<rparr>]),
       (SVG_DIR, js ''es-spanish.svg'', generateSVG [four_column_record] (js ''es''))],
      TypeError)\<close>
proof -
  let ?h = "[js ''lang_abv'', js ''lang'', js ''commonName'', js ''avgColorRGBCode'']"
  let ?obj1 = "row_object ?h [js ''es'', js ''Spanish'', js ''light blue'', js ''rgb(91, 155, 213)'']"
  let ?obj2 = "row_object ?h [js ''fr'', js ''French'', [], js ''rgb(1, 2, 3)'']"
  have l1: "raw_language ?obj1 = Some (js ''es'')" and l2: "raw_language ?obj2 = Some (js ''fr'')"
    by (simp_all add: raw_language_def row_object_def set_property_def value_or_empty_def js_def)
  have k: "js ''es'' \<noteq> js ''fr''" by (simp add: js_def)
  have r1: "readable ?obj1" and r2: "\<not> readable ?obj2"
    by (simp_all add: readable_def property_or_empty_def row_object_def set_property_def
        value_or_empty_def js_def)
  have t: "to_ColorInfo ?obj1 = four_column_record"
    by (simp add: to_ColorInfo_def property_or_empty_def row_object_def set_property_def
        value_or_empty_def four_column_record_def js_def)
  show ?thesis
    unfolding main_writes_def stopped_objects write_two_groups[OF l1 l2 k r1 r2] t
      four_column_files ..
qed


section \<open>The CSV and JSON emitters: proofs\<close>


lemma replace_char_chars:
  "c \<in> set (replace_char x r s) \<Longrightarrow> c \<in> set r \<or> c \<in> set s"
  by (auto simp: replace_char_def split: if_splits)

lemma escape_name_chars: "c \<in> set (escape_name nm) \<Longrightarrow> c = 34 \<or> c \<in> set nm"
  by (auto simp: escape_name_def dest!: replace_char_chars split: if_splits)

lemma csv_row_no_newline:
  assumes "10 \<notin> set (entry_name color)"
  shows "10 \<notin> set (csv_row color)"
proof -
  have "10 \<notin> set (rgbToHex (avgColorRGBCode color))"
    using rgbToHex_chars[of 10] by auto
  moreover have "10 \<notin> set (escape_name (entry_name color))"
    using assms escape_name_chars[of 10] by auto
  ultimately show ?thesis by (simp add: csv_row_def)
qed

lemma split_generateCSV:
  assumes "\<forall>color \<in> set colors. 10 \<notin> set (entry_name color)"
  shows "split_on 10 (generateCSV colors) = csv_rows colors"
proof -
  have "\<forall>n \<in> set (js ''name,hex'' # map csv_row colors). 10 \<notin> set n"
    using assms by (auto simp: js_def dest: csv_row_no_newline)
  then show ?thesis
    unfolding generateCSV_def csv_rows_def by (rule split_on_join)
qed

text \<open>
  When no name holds a line feed (none does in a record that \<^verbatim>\<open>parseCSV\<close> returns), the
  lines of the emitted text are the header and one row for each record.
\<close>

lemma generateCSV_lines:
  assumes "\<forall>color \<in> set colors. 10 \<notin> set (entry_name color)"
  shows "split_on 10 (generateCSV colors) = js ''name,hex'' # map csv_row colors"
  using split_generateCSV[OF assms] by (simp add: csv_rows_def)

subsection \<open>Reading the JSON text back\<close>

lemma toString16_small: "n < 16 \<Longrightarrow> toString16 n = [hex_digit n]"
  by (simp add: toString16.simps[of n])

lemma toString16_big:
  "\<not> n < 16 \<Longrightarrow> toString16 n = toString16 (n div 16) @ [hex_digit (n mod 16)]"
  by (simp add: toString16.simps[of n])

lemma toString16_four:
  assumes "c < 65536"
  shows "padStart0 4 (toString16 c) =
         [hex_digit (c div 4096), hex_digit (c div 256 mod 16), hex_digit (c div 16 mod 16),
          hex_digit (c mod 16)]"
proof -
  define a where "a = c div 16"
  define b where "b = a div 16"
  define e where "e = b div 16"
  have b: "b = c div 256" and e: "e = c div 4096"
    by (simp_all add: a_def b_def e_def div_mult2_eq)
  have r: "replicate 3 (48::nat) = [48, 48, 48]" "replicate 2 (48::nat) = [48, 48]"
    "replicate 1 (48::nat) = [48]"
    by (simp_all add: numeral_3_eq_3 numeral_2_eq_2)
  have z: "hex_digit 0 = 48" by (simp add: hex_digit_def)
  have goal: "padStart0 4 (toString16 c) =
      [hex_digit e, hex_digit (b mod 16), hex_digit (a mod 16), hex_digit (c mod 16)]"
  proof -
    consider "c < 16" | "\<not> c < 16" "a < 16" | "\<not> c < 16" "\<not> a < 16" "b < 16"
      | "\<not> c < 16" "\<not> a < 16" "\<not> b < 16"
      by blast
    then show ?thesis
    proof cases
      case 1
      then have "a = 0" "b = 0" "e = 0" by (simp_all add: a_def b_def e_def)
      with 1 show ?thesis by (simp add: toString16_small padStart0_def r z)
    next
      case 2
      then have "b = 0" "e = 0" by (simp_all add: b_def e_def)
      moreover from 2 have "toString16 c = [hex_digit a, hex_digit (c mod 16)]"
        by (simp add: toString16_big[of c] toString16_small a_def)
      ultimately show ?thesis using 2 by (simp add: padStart0_def r z)
    next
      case 3
      then have "e = 0" by (simp add: e_def)
      moreover from 3 have "toString16 c = [hex_digit b, hex_digit (a mod 16), hex_digit (c mod 16)]"
        unfolding toString16_big[OF 3(1)] a_def[symmetric] toString16_big[OF 3(2)]
          b_def[symmetric] toString16_small[OF 3(3)] by simp
      ultimately show ?thesis using 3 by (simp add: padStart0_def r z)
    next
      case 4
      from assms have e16: "e < 16" unfolding e by simp
      have "toString16 c =
          [hex_digit e, hex_digit (b mod 16), hex_digit (a mod 16), hex_digit (c mod 16)]"
        unfolding toString16_big[OF 4(1)] a_def[symmetric] toString16_big[OF 4(2)]
          b_def[symmetric] toString16_big[OF 4(3)] e_def[symmetric] toString16_small[OF e16]
        by simp
      then show ?thesis by (simp add: padStart0_def)
    qed
  qed
  show ?thesis using goal unfolding e b a_def .
qed

lemma read_hex4:
  assumes "hex_val x1 = Some d1" "hex_val x2 = Some d2" "hex_val x3 = Some d3"
    "hex_val x4 = Some d4"
  shows "read_string In_text acc (92 # 117 # x1 # x2 # x3 # x4 # rest) =
         read_string In_text (acc @ [16 * (16 * (16 * d1 + d2) + d3) + d4]) rest"
  using assms by simp

lemma read_unicode_escape:
  assumes "c < 65536"
  shows "read_string In_text acc (unicode_escape c @ rest) = read_string In_text (acc @ [c]) rest"
proof -
  have "c div 4096 = c div 256 div 16" "c div 256 = c div 16 div 16"
    by (simp_all add: div_mult2_eq)
  then have v: "16 * (16 * (16 * (c div 4096) + c div 256 mod 16) + c div 16 mod 16) + c mod 16 = c"
    by (simp only: mult_div_mod_eq)
  have "c div 4096 < 16" using assms by auto
  then have h: "hex_val (hex_digit (c div 4096)) = Some (c div 4096)"
    "hex_val (hex_digit (c div 256 mod 16)) = Some (c div 256 mod 16)"
    "hex_val (hex_digit (c div 16 mod 16)) = Some (c div 16 mod 16)"
    "hex_val (hex_digit (c mod 16)) = Some (c mod 16)"
    by (simp_all add: hex_val_digit)
  have ue: "unicode_escape c @ rest =
        92 # 117 # hex_digit (c div 4096) # hex_digit (c div 256 mod 16) #
        hex_digit (c div 16 mod 16) # hex_digit (c mod 16) # rest"
    unfolding unicode_escape_def toString16_four[OF assms] by simp
  show ?thesis
    unfolding ue read_hex4[OF h, of acc rest] v ..
qed

lemma read_quoted_char:
  "read_string In_text acc (json_quote_chars [c] @ rest) = read_string In_text (acc @ [c]) rest"
proof -
  have u: "read_string In_text acc (unicode_escape c @ rest) = read_string In_text (acc @ [c]) rest"
    if "c < 32 \<or> is_lead_surrogate c \<or> is_trail_surrogate c"
  proof -
    from that have "c < 65536" by (auto simp: is_lead_surrogate_def is_trail_surrogate_def)
    then show ?thesis by (rule read_unicode_escape)
  qed
  have p: "read_string In_text acc ([c] @ rest) = read_string In_text (acc @ [c]) rest"
    if "c \<noteq> 34" "c \<noteq> 92"
    using that by simp
  have e: "read_string In_text acc ([92, x] @ rest) =
      (if x = 117 then read_string (In_hex []) acc rest
       else case unescape x of
              Some v \<Rightarrow> read_string In_text (acc @ [v]) rest
            | None \<Rightarrow> None)" for x
    by simp
  show ?thesis
    unfolding json_quote_chars.simps(2)
    by (auto simp: u p e unescape_def simp del: append.simps)
qed

lemma read_quoted_chars:
  "read_string In_text acc (json_quote_chars s @ 34 # rest) = Some (acc @ s, rest)"
proof (induction s arbitrary: acc rule: json_quote_chars.induct)
  case 1
  show ?case by simp
next
  case (2 c)
  show ?case unfolding read_quoted_char by simp
next
  case (3 c d s)
  show ?case
  proof (cases "is_lead_surrogate c \<and> is_trail_surrogate d")
    case True
    then have "c \<noteq> 34" "c \<noteq> 92" "d \<noteq> 34" "d \<noteq> 92"
      by (auto simp: is_lead_surrogate_def is_trail_surrogate_def)
    with True 3(1)[of "acc @ [c, d]"] show ?thesis by simp
  next
    case False
    have "json_quote_chars (c # d # s) = json_quote_chars [c] @ json_quote_chars (d # s)"
      unfolding json_quote_chars.simps(3)[of c d s] using False by (rule if_not_P)
    then have "read_string In_text acc (json_quote_chars (c # d # s) @ 34 # rest) =
          read_string In_text acc (json_quote_chars [c] @ (json_quote_chars (d # s) @ 34 # rest))"
      by (simp only: append_assoc)
    also have "\<dots> = Some ((acc @ [c]) @ d # s, rest)"
      unfolding read_quoted_char using 3(3)[OF False] .
    finally show ?thesis by simp
  qed
qed

lemma read_literal_quote:
  "read_literal (json_quote s @ rest) = Some (s, rest)"
  by (simp add: read_literal_def expect_def json_quote_def json_space_def read_quoted_chars)
















subsection \<open>Reading the CSV text back\<close>












section \<open>The SVG emitter: proofs\<close>

subsection \<open>Replacing a literal pattern\<close>

lemma replace_scan_skip:
  "length x = k \<Longrightarrow>
   replace_scan pat repl pre k (x @ rest) = replace_scan pat repl (pre @ x) 0 rest"
proof (induction x arbitrary: pre k)
  case Nil
  then show ?case by simp
next
  case (Cons c x)
  then obtain k' where k: "k = Suc k'" "length x = k'" by (cases k) auto
  from Cons.IH[OF k(2), of "pre @ [c]"] k(1) show ?case by simp
qed

lemma replace_scan_no_start:
  "pat \<noteq> [] \<Longrightarrow> hd pat \<notin> set a \<Longrightarrow>
   replace_scan pat repl pre 0 (a @ rest) = a @ replace_scan pat repl (pre @ a) 0 rest"
proof (induction a arbitrary: pre)
  case Nil
  then show ?case by simp
next
  case (Cons c a)
  from Cons.prems have "take (length pat) (c # a @ rest) \<noteq> pat"
    by (cases pat) auto
  with Cons.IH[of "pre @ [c]"] Cons.prems show ?case by simp
qed

lemma replace_scan_at_match:
  assumes "pat \<noteq> []"
  shows "replace_scan pat repl pre 0 (pat @ rest) =
         expand_replacement pat pre rest repl @ replace_scan pat repl (pre @ pat) 0 rest"
proof -
  from assms obtain p ps where p: "pat = p # ps" by (cases pat) auto
  have "replace_scan pat repl (pre @ [p]) (length ps) (ps @ rest) =
        replace_scan pat repl ((pre @ [p]) @ ps) 0 rest"
    by (rule replace_scan_skip) simp
  then show ?thesis by (simp add: p)
qed

lemma replace_step_match:
  "pat \<noteq> [] \<Longrightarrow> hd pat \<notin> set a \<Longrightarrow>
   replace_scan pat repl pre 0 (a @ pat @ rest) =
   a @ expand_replacement pat (pre @ a) rest repl @ replace_scan pat repl (pre @ a @ pat) 0 rest"
  by (simp add: replace_scan_no_start replace_scan_at_match)

lemma replace_step_other:
  "pat \<noteq> [] \<Longrightarrow> hd pat \<notin> set a \<Longrightarrow> take (length pat) (c # rest) \<noteq> pat \<Longrightarrow>
   replace_scan pat repl pre 0 (a @ c # rest) =
   a @ c # replace_scan pat repl (pre @ a @ [c]) 0 rest"
  by (simp add: replace_scan_no_start)

lemma replace_step_end:
  "pat \<noteq> [] \<Longrightarrow> hd pat \<notin> set a \<Longrightarrow> replace_scan pat repl pre 0 a = a"
  using replace_scan_no_start[of pat a repl pre "[]"] by simp

lemma expand_replacement_plain:
  "36 \<notin> set r \<Longrightarrow> expand_replacement m b a r = r"
  by (induction m b a r rule: expand_replacement.induct) auto


subsection \<open>The template\<close>

lemma generateSVG_document:
  assumes H: "123 \<notin> set H" "36 \<notin> set H"
  shows "replace_all (js ''{items}'') I (replace_all (js ''{height}'') H SVG_TEMPLATE) =
         svg_prefix H @ expand_replacement (js ''{items}'') (svg_prefix H) svg_suffix I @ svg_suffix"
proof -
  define A1 where \<open>A1 = js ''<svg xmlns="http://www.w3.org/2000/svg" viewBox="0 0 600 ''\<close>
  define A2 where \<open>A2 =
     js ''">\<newline>'' @
     js ''  <defs>\<newline>'' @
     js ''    <style type="text/css">\<newline>'' @
     js ''      @import url('' @ [39] @ js ''https://rsms.me/inter/inter.css'' @ [39] @ js '');\<newline>'' @
     js ''      text ''\<close>
  define A3 where \<open>A3 =
     js ''\<newline>'' @
     js ''        font-family: Inter, -apple-system, BlinkMacSystemFont, "Segoe UI", Roboto, Helvetica, Arial, sans-serif, "Apple Color Emoji", "Segoe UI Emoji", "Segoe UI Symbol";\<newline>'' @
     js ''        font-size: 40px;\<newline>'' @
     js ''        font-weight: 900;\<newline>'' @
     js ''      }\<newline>'' @
     js ''    </style>\<newline>'' @
     js ''  </defs>\<newline>'' @
     js ''  <rect fill="#202124" x="0" y="0" width="600" height="''\<close>
  define A4 where \<open>A4 = js ''"/>\<newline>  ''\<close>
  define A5 where \<open>A5 = js ''items}\<newline></svg>''\<close>
  define Ph where "Ph = js ''{height}''"
  define Pi where "Pi = js ''{items}''"
  have T: "SVG_TEMPLATE = A1 @ Ph @ A2 @ 123 # A3 @ Ph @ A4 @ 123 # A5"
    by (simp add: SVG_TEMPLATE_def A1_def A2_def A3_def A4_def A5_def Ph_def js_def)
  have P: "svg_prefix H = A1 @ H @ A2 @ 123 # A3 @ H @ A4"
    by (simp add: svg_prefix_def A1_def A2_def A3_def A4_def js_def)
  have S: "123 # A5 = Pi @ svg_suffix"
    by (simp add: svg_suffix_def A5_def Pi_def js_def)
  have ne: "Ph \<noteq> []" "Pi \<noteq> []" and hd: "hd Ph = 123" "hd Pi = 123"
    by (simp_all add: Ph_def Pi_def js_def)
  have nb: "123 \<notin> set A1" "123 \<notin> set A2" "123 \<notin> set A3" "123 \<notin> set A4" "123 \<notin> set A5"
    "123 \<notin> set svg_suffix"
    by (simp_all add: A1_def A2_def A3_def A4_def A5_def svg_suffix_def js_def)
  have A3c: "A3 = 10 # tl A3" by (simp add: A3_def js_def)
  have t1: "take (length Ph) (123 # A3 @ x) \<noteq> Ph" for x
    by (subst A3c) (simp add: Ph_def js_def)
  have t2: "take (length Ph) (123 # A5) \<noteq> Ph"
    by (simp add: Ph_def A5_def js_def)
  have t3: "take (length Pi) (123 # A3 @ x) \<noteq> Pi" for x
    by (subst A3c) (simp add: Pi_def js_def)
  have e: "expand_replacement m b a H = H" for m b a
    using H(2) by (rule expand_replacement_plain)
  have first: "replace_all Ph H SVG_TEMPLATE = A1 @ H @ A2 @ 123 # A3 @ H @ A4 @ 123 # A5"
  proof -
    have "replace_scan Ph H [] 0 (A1 @ Ph @ A2 @ 123 # A3 @ Ph @ A4 @ 123 # A5) =
          A1 @ H @ replace_scan Ph H ([] @ A1 @ Ph) 0 (A2 @ 123 # A3 @ Ph @ A4 @ 123 # A5)"
      using ne(1) nb(1) by (simp add: replace_step_match hd e)
    also have "replace_scan Ph H ([] @ A1 @ Ph) 0 (A2 @ 123 # A3 @ Ph @ A4 @ 123 # A5) =
          A2 @ 123 # replace_scan Ph H (([] @ A1 @ Ph) @ A2 @ [123]) 0 (A3 @ Ph @ A4 @ 123 # A5)"
      using ne(1) nb(2) t1 by (intro replace_step_other) (simp_all add: hd)
    also have "replace_scan Ph H (([] @ A1 @ Ph) @ A2 @ [123]) 0 (A3 @ Ph @ A4 @ 123 # A5) =
          A3 @ H @ replace_scan Ph H ((([] @ A1 @ Ph) @ A2 @ [123]) @ A3 @ Ph) 0 (A4 @ 123 # A5)"
      using ne(1) nb(3) by (simp add: replace_step_match hd e)
    also have "replace_scan Ph H ((([] @ A1 @ Ph) @ A2 @ [123]) @ A3 @ Ph) 0 (A4 @ 123 # A5) =
          A4 @ 123 # replace_scan Ph H (((([] @ A1 @ Ph) @ A2 @ [123]) @ A3 @ Ph) @ A4 @ [123]) 0 A5"
      using ne(1) nb(4) t2 by (intro replace_step_other) (simp_all add: hd)
    also have "replace_scan Ph H (((([] @ A1 @ Ph) @ A2 @ [123]) @ A3 @ Ph) @ A4 @ [123]) 0 A5 = A5"
      using ne(1) nb(5) by (intro replace_step_end) (simp_all add: hd)
    finally show ?thesis by (simp add: replace_all_def T)
  qed
  have nbH: "123 \<notin> set (A1 @ H @ A2)" "123 \<notin> set (A3 @ H @ A4)"
    using nb H(1) by simp_all
  have second: "replace_all Pi I (A1 @ H @ A2 @ 123 # A3 @ H @ A4 @ Pi @ svg_suffix) =
      svg_prefix H @ expand_replacement Pi (svg_prefix H) svg_suffix I @ svg_suffix"
  proof -
    have "replace_scan Pi I [] 0 ((A1 @ H @ A2) @ 123 # (A3 @ H @ A4) @ Pi @ svg_suffix) =
          (A1 @ H @ A2) @ 123 #
          replace_scan Pi I ([] @ (A1 @ H @ A2) @ [123]) 0 ((A3 @ H @ A4) @ Pi @ svg_suffix)"
      using ne(2) nbH(1) t3[of "H @ A4 @ Pi @ svg_suffix"]
      by (intro replace_step_other) (simp_all add: hd)
    also have "replace_scan Pi I ([] @ (A1 @ H @ A2) @ [123]) 0 ((A3 @ H @ A4) @ Pi @ svg_suffix) =
          (A3 @ H @ A4) @ expand_replacement Pi (([] @ (A1 @ H @ A2) @ [123]) @ A3 @ H @ A4) svg_suffix I @
          replace_scan Pi I (([] @ (A1 @ H @ A2) @ [123]) @ (A3 @ H @ A4) @ Pi) 0 svg_suffix"
      using ne(2) nbH(2) by (intro replace_step_match) (simp_all add: hd)
    also have "replace_scan Pi I (([] @ (A1 @ H @ A2) @ [123]) @ (A3 @ H @ A4) @ Pi) 0 svg_suffix =
          svg_suffix"
      using ne(2) nb(6) by (intro replace_step_end) (simp_all add: hd)
    finally show ?thesis by (simp add: replace_all_def P)
  qed
  show ?thesis
    using first second unfolding S Ph_def Pi_def by simp
qed


subsection \<open>The characters of the pieces\<close>

lemma dec_digits_chars: "c \<in> set (dec_digits n) \<Longrightarrow> is_digit c"
  using dec_digits_props[of n] by (simp add: list_all_iff)

lemma num_to_string_nat_chars: "c \<in> set (num_to_string (int n)) \<Longrightarrow> is_digit c"
  by (simp add: num_to_string_def dec_digits_chars)

lemma num_to_string_nat_plain:
  "36 \<notin> set (num_to_string (int n))" "123 \<notin> set (num_to_string (int n))"
proof -
  have "\<not> is_digit 36" "\<not> is_digit 123" by (simp_all add: is_digit_def)
  then show "36 \<notin> set (num_to_string (int n))" "123 \<notin> set (num_to_string (int n))"
    using num_to_string_nat_chars[of _ n] by blast+
qed

lemma xml_escape_no_dollar: "36 \<notin> set nm \<Longrightarrow> 36 \<notin> set (xml_escape nm)"
  unfolding xml_escape_def
  by (auto dest!: replace_char_chars simp: js_def)

lemma svg_item_no_dollar:
  assumes "36 \<notin> set (entry_name color)"
  shows "36 \<notin> set (svg_item rtl color i)"
proof -
  have h: "36 \<notin> set (rgbToHex (avgColorRGBCode color))"
    using rgbToHex_chars[of 36] by auto
  have n: "36 \<notin> set (num_to_string (int (20 + (i + 1) * 70)))"
    by (rule num_to_string_nat_plain)
  from xml_escape_no_dollar[OF assms] h n show ?thesis
    by (simp add: svg_item_def Let_def js_def)
qed

lemma join_chars:
  "c \<in> set (join sep xs) \<Longrightarrow> c \<in> set sep \<or> (\<exists>x \<in> set xs. c \<in> set x)"
  by (induction sep xs rule: join.induct) auto

lemma svg_items_nth:
  "i < length colors \<Longrightarrow>
   svg_items colors langAbv ! i = svg_item (langAbv \<in> set RTL_LANGUAGES) (colors ! i) i"
  by (simp add: svg_items_def)

lemma svg_item_element:
  "svg_item rtl color i =
   svg_text_element rtl (20 + 70 * (int i + 1)) (rgbToHex (avgColorRGBCode color))
     (xml_escape (entry_name color))"
proof -
  have "int (20 + (i + 1) * 70) = 20 + 70 * (int i + 1)" by simp
  then show ?thesis by (simp add: svg_item_def svg_text_element_def Let_def mult.commute)
qed

lemma svg_items_no_dollar:
  assumes "\<forall>color \<in> set colors. 36 \<notin> set (entry_name color)"
  shows "36 \<notin> set (join (js ''\<newline>  '') (svg_items colors langAbv))"
proof
  assume "36 \<in> set (join (js ''\<newline>  '') (svg_items colors langAbv))"
  from join_chars[OF this] obtain x where x: "x \<in> set (svg_items colors langAbv)" "36 \<in> set x"
    by (auto simp: js_def)
  then obtain color i where "color \<in> set colors"
    "x = svg_item (langAbv \<in> set RTL_LANGUAGES) color i"
    by (auto simp: svg_items_def dest: set_zip_leftD)
  with assms svg_item_no_dollar[of color] x(2) show False by auto
qed

text \<open>
  C8, as amended. For a group of \<open>n\<close> entries \<^verbatim>\<open>generateSVG\<close> returns the document of the
  template with the width 600 and the height \<open>70 * n + 80\<close> in the \<^verbatim>\<open>viewBox\<close> and in the
  background rectangle, and with the joined items at the place of \<^verbatim>\<open>{items}\<close>. There is
  one item per entry; the item of the entry at index \<open>i\<close> (from 0) is a text element with
  \<open>y = 20 + 70 * (i + 1)\<close>, filled with the hex colour of the entry: the stride is 70 and
  the first element stands at \<open>y = 90\<close>, one stride below the offset 20. The items pass
  through the replacement patterns of \<^verbatim>\<open>String.prototype.replace\<close>; when no name holds a
  dollar sign they stand in the document as they are. (As stated, with the elements
  starting at the offset 20, the claim fails on every group that is not empty; a group of
  one entry is shown after the witness.)
\<close>

theorem generateSVG_layout:
  "generateSVG colors langAbv =
     svg_prefix (num_to_string (70 * int (length colors) + 80)) @
     expand_replacement (js ''{items}'')
       (svg_prefix (num_to_string (70 * int (length colors) + 80))) svg_suffix
       (join (js ''\<newline>  '') (svg_items colors langAbv)) @
     svg_suffix \<and>
   length (svg_items colors langAbv) = length colors \<and>
   (i < length colors \<longrightarrow>
    svg_items colors langAbv ! i =
      svg_text_element (langAbv \<in> set RTL_LANGUAGES) (20 + 70 * (int i + 1))
        (rgbToHex (avgColorRGBCode (colors ! i))) (xml_escape (entry_name (colors ! i)))) \<and>
   ((\<forall>color \<in> set colors. 36 \<notin> set (entry_name color)) \<longrightarrow>
    generateSVG colors langAbv =
      svg_prefix (num_to_string (70 * int (length colors) + 80)) @
      join (js ''\<newline>  '') (svg_items colors langAbv) @ svg_suffix)"
proof -
  let ?H = "num_to_string (int (svg_height colors))"
  have hh: "int (svg_height colors) = 70 * int (length colors) + 80"
    by (simp add: svg_height_def)
  have "123 \<notin> set ?H" "36 \<notin> set ?H"
    by (rule num_to_string_nat_plain)+
  from generateSVG_document[OF this]
  have doc: "generateSVG colors langAbv =
      svg_prefix ?H @
      expand_replacement (js ''{items}'') (svg_prefix ?H) svg_suffix
        (join (js ''\<newline>  '') (svg_items colors langAbv)) @ svg_suffix"
    by (simp add: generateSVG_def)
  have len: "length (svg_items colors langAbv) = length colors"
    by (simp add: svg_items_def)
  have el: "svg_items colors langAbv ! i =
      svg_text_element (langAbv \<in> set RTL_LANGUAGES) (20 + 70 * (int i + 1))
        (rgbToHex (avgColorRGBCode (colors ! i))) (xml_escape (entry_name (colors ! i)))"
    if "i < length colors"
    using that by (simp add: svg_items_nth svg_item_element)
  have plain: "generateSVG colors langAbv =
      svg_prefix ?H @ join (js ''\<newline>  '') (svg_items colors langAbv) @ svg_suffix"
    if "\<forall>color \<in> set colors. 36 \<notin> set (entry_name color)"
    using doc expand_replacement_plain[OF svg_items_no_dollar[OF that]] by simp
  from doc len el plain show ?thesis unfolding hh by blast
qed


theorem generateSVG_layout_witness:
  \<open>(0::nat) < length [scenario_record] \<and>
   svg_items [scenario_record] (js ''es'') =
     [js ''<text x="40" y="90" fill="#5b9bd5">light blue</text>''] \<and>
   generateSVG [scenario_record] (js ''es'') =
     svg_prefix (js ''150'') @ js ''<text x="40" y="90" fill="#5b9bd5">light blue</text>'' @
     svg_suffix\<close>
proof -
  let ?el = \<open>js ''<text x="40" y="90" fill="#5b9bd5">light blue</text>''\<close>
  have i: "(0::nat) < length [scenario_record]" by simp
  note t = generateSVG_layout[of "[scenario_record]" "js ''es''" 0]
  have rtl: "js ''es'' \<notin> set RTL_LANGUAGES" by (simp add: RTL_LANGUAGES_def js_def)
  have H: "num_to_string (70 * int (length [scenario_record]) + 80) = js ''150''"
    by (simp add: num_to_string_def dec_digits.simps js_def)
  have hx: "rgbToHex (avgColorRGBCode scenario_record) = js ''#5b9bd5''"
    using scenario_hex by (simp add: scenario_record_def)
  have nm: "xml_escape (entry_name scenario_record) = js ''light blue''"
    by (simp add: xml_escape_def replace_char_def entry_name_def scenario_record_def js_def)
  have y: "num_to_string (20 + 70 * (int 0 + 1)) = js ''90''"
    by (simp add: num_to_string_def dec_digits.simps js_def)
  have el: "svg_text_element False (20 + 70 * (int 0 + 1)) (js ''#5b9bd5'') (js ''light blue'') = ?el"
    unfolding svg_text_element_def y by (simp add: js_def)
  have nd: "\<forall>color \<in> set [scenario_record]. 36 \<notin> set (entry_name color)"
    by (simp add: entry_name_def scenario_record_def js_def)
  note len = t[THEN conjunct2, THEN conjunct1]
  note c3 = t[THEN conjunct2, THEN conjunct2, THEN conjunct1, THEN mp, OF i]
  note c4 = t[THEN conjunct2, THEN conjunct2, THEN conjunct2, THEN mp, OF nd]
  from c3 have nth: "svg_items [scenario_record] (js ''es'') ! 0 = ?el"
    by (simp only: nth_Cons_0 hx nm rtl el)
  from c4 have doc: "generateSVG [scenario_record] (js ''es'') =
      svg_prefix (js ''150'') @ join (js ''\<newline>  '') (svg_items [scenario_record] (js ''es'')) @
      svg_suffix"
    by (simp only: H)
  from len nth have items: "svg_items [scenario_record] (js ''es'') = [?el]"
    by (cases "svg_items [scenario_record] (js ''es'')") simp_all
  from i items doc show ?thesis by simp
qed


text \<open>
  A group of one entry: the document holds one text element, at \<open>y = 90\<close>; an element
  at the offset 20 is another text, and the document holds none.
\<close>

theorem generateSVG_first_element_counterexample:
  \<open>svg_items [scenario_record] (js ''es'') =
     [js ''<text x="40" y="90" fill="#5b9bd5">light blue</text>''] \<and>
   generateSVG [scenario_record] (js ''es'') =
     svg_prefix (js ''150'') @ js ''<text x="40" y="90" fill="#5b9bd5">light blue</text>'' @
     svg_suffix \<and>
   svg_text_element False 20 (js ''#5b9bd5'') (js ''light blue'') =
     js ''<text x="40" y="20" fill="#5b9bd5">light blue</text>'' \<and>
   svg_items [scenario_record] (js ''es'') \<noteq>
     [svg_text_element False 20 (js ''#5b9bd5'') (js ''light blue'')] \<and>
   generateSVG [scenario_record] (js ''es'') \<noteq>
     svg_prefix (js ''150'') @ svg_text_element False 20 (js ''#5b9bd5'') (js ''light blue'') @
     svg_suffix\<close>
proof -
  let ?el = \<open>js ''<text x="40" y="90" fill="#5b9bd5">light blue</text>''\<close>
  have rtl: "js ''es'' \<notin> set RTL_LANGUAGES" by (simp add: RTL_LANGUAGES_def js_def)
  have hx: "rgbToHex (avgColorRGBCode scenario_record) = js ''#5b9bd5''"
    using scenario_hex by (simp add: scenario_record_def)
  have nm: "xml_escape (entry_name scenario_record) = js ''light blue''"
    by (simp add: xml_escape_def replace_char_def entry_name_def scenario_record_def js_def)
  have y: "num_to_string (20 + 70 * (int 0 + 1)) = js ''90''"
    by (simp add: num_to_string_def dec_digits.simps js_def)
  have y20: "num_to_string 20 = js ''20''"
    by (simp add: num_to_string_def dec_digits.simps js_def)
  have H: "num_to_string (int (svg_height [scenario_record])) = js ''150''"
    by (simp add: svg_height_def num_to_string_def dec_digits.simps js_def)
  have "svg_items [scenario_record] (js ''es'') =
          [svg_item (js ''es'' \<in> set RTL_LANGUAGES) scenario_record 0]"
    by (simp add: svg_items_def)
  then have items: "svg_items [scenario_record] (js ''es'') = [?el]"
    unfolding svg_item_element hx nm svg_text_element_def y using rtl by (simp add: js_def)
  have joined: "join (js ''\<newline>  '') [?el] = ?el" by simp
  have "123 \<notin> set (js ''150'')" "36 \<notin> set (js ''150'')" by (simp_all add: js_def)
  from generateSVG_document[OF this]
  have "generateSVG [scenario_record] (js ''es'') =
          svg_prefix (js ''150'') @
          expand_replacement (js ''{items}'') (svg_prefix (js ''150'')) svg_suffix ?el @ svg_suffix"
    unfolding generateSVG_def H items joined by simp
  moreover have "36 \<notin> set ?el" by (simp add: js_def)
  ultimately have doc: "generateSVG [scenario_record] (js ''es'') =
      svg_prefix (js ''150'') @ ?el @ svg_suffix"
    by (simp add: expand_replacement_plain)
  have e20: \<open>svg_text_element False 20 (js ''#5b9bd5'') (js ''light blue'') =
      js ''<text x="40" y="20" fill="#5b9bd5">light blue</text>''\<close>
    unfolding svg_text_element_def y20 by (simp add: js_def)
  have ne: \<open>?el \<noteq> js ''<text x="40" y="20" fill="#5b9bd5">light blue</text>''\<close>
    by (simp add: js_def)
  show ?thesis
    unfolding items doc e20 using ne by simp
qed

end
